theory Spec2Isabelle
  imports Complex_Main "HOL-Library.Word"
begin

section \<open>Exceptions\<close>

text \<open>
  The exceptions the service can raise, each tagged with its Python class. The class
  hierarchy matters to the route handler, which has one clause for \<open>ValueError\<close> and one
  for \<open>Exception\<close>: \<open>binascii.Error\<close> is a subclass of \<open>ValueError\<close>,
  \<open>PIL.UnidentifiedImageError\<close> is a subclass of \<open>OSError\<close>.
\<close>

datatype exn =
    ValueError string
  | BinasciiError string
  | UnidentifiedImageError string
  | OSError string
  | RuntimeError string
  | ZeroDivisionError string
  | TypeError string

fun isinstance_ValueError :: "exn \<Rightarrow> bool" where
  "isinstance_ValueError (ValueError m) = True"
| "isinstance_ValueError (BinasciiError m) = True"
| "isinstance_ValueError e = False"

fun str_exn :: "exn \<Rightarrow> string" where
  "str_exn (ValueError m) = m"
| "str_exn (BinasciiError m) = m"
| "str_exn (UnidentifiedImageError m) = m"
| "str_exn (OSError m) = m"
| "str_exn (RuntimeError m) = m"
| "str_exn (ZeroDivisionError m) = m"
| "str_exn (TypeError m) = m"

section \<open>Arrays\<close>

text \<open>
  A numpy array of shape \<open>(nrows, ncols)\<close> (a mask) or \<open>(nrows, ncols, 3)\<close> (an image,
  whose cells are then pixels of three channels): the shape is kept beside the rows, since
  an array with no row still has a width.
\<close>

type_synonym u8 = "8 word"

type_synonym rgb = "u8 \<times> u8 \<times> u8"

record 'a ndarray =
  nrows :: nat
  ncols :: nat
  cells :: "'a list list"

definition well_shaped :: "'a ndarray \<Rightarrow> bool" where
  "well_shaped a \<longleftrightarrow>
     length (cells a) = nrows a \<and> (\<forall>r \<in> set (cells a). length r = ncols a)"

definition cell :: "'a ndarray \<Rightarrow> nat \<Rightarrow> nat \<Rightarrow> 'a" where
  "cell a y x = cells a ! y ! x"

definition tabulate2 :: "nat \<Rightarrow> nat \<Rightarrow> (nat \<Rightarrow> nat \<Rightarrow> 'a) \<Rightarrow> 'a ndarray" where
  "tabulate2 h w f =
     \<lparr>nrows = h, ncols = w, cells = map (\<lambda>y. map (\<lambda>x. f y x) [0..<w]) [0..<h]\<rparr>"

definition map_nd :: "('a \<Rightarrow> 'b) \<Rightarrow> 'a ndarray \<Rightarrow> 'b ndarray" where
  \<comment> \<open>an elementwise operation of numpy: the shape stays\<close>
  "map_nd f a = \<lparr>nrows = nrows a, ncols = ncols a, cells = map (map f) (cells a)\<rparr>"

definition crop :: "nat \<Rightarrow> nat \<Rightarrow> 'a ndarray \<Rightarrow> 'a ndarray" where
  \<comment> \<open>the slice \<open>a[:h, :w]\<close>: a bound beyond the axis is clipped\<close>
  "crop h w a =
     \<lparr>nrows = min h (nrows a), ncols = min w (ncols a),
      cells = map (take w) (take h (cells a))\<rparr>"

section \<open>Preprocessing\<close>

subsection \<open>Binarization\<close>

text \<open>
  Line 74 of the service: \<open>mask_binary = (mask > 127).astype(np.uint8) * 255\<close>. The
  comparison gives a boolean array, \<open>astype\<close> turns it into 0 and 1, the product is taken
  in \<open>uint8\<close>.
\<close>

definition bool_to_u8 :: "bool \<Rightarrow> u8" where
  "bool_to_u8 b = (if b then 1 else 0)"

definition binarize :: "u8 ndarray \<Rightarrow> u8 ndarray" where
  "binarize msk = map_nd (\<lambda>v. v * 255) (map_nd bool_to_u8 (map_nd (\<lambda>v. 127 < v) msk))"

subsection \<open>Dilation\<close>

text \<open>
  \<open>scipy.ndimage.binary_dilation(input, iterations=2)\<close> with its defaults: the structuring
  element is the cross of connectivity 1 (the cell and its four neighbours), cells beyond
  the border count as unset, and the dilation is applied twice.
\<close>

definition dilate_step :: "bool ndarray \<Rightarrow> bool ndarray" where
  "dilate_step a =
     tabulate2 (nrows a) (ncols a)
       (\<lambda>y x. cell a y x
             \<or> (0 < y \<and> cell a (y - 1) x)
             \<or> (y + 1 < nrows a \<and> cell a (y + 1) x)
             \<or> (0 < x \<and> cell a y (x - 1))
             \<or> (x + 1 < ncols a \<and> cell a y (x + 1)))"

definition binary_dilation :: "bool ndarray \<Rightarrow> nat \<Rightarrow> bool ndarray" where
  "binary_dilation a iterations = (dilate_step ^^ iterations) a"

definition dilate_mask :: "u8 ndarray \<Rightarrow> u8 ndarray" where
  \<comment> \<open>line 78: \<open>binary_dilation(mask_binary > 0, iterations=2).astype(np.uint8) * 255\<close>\<close>
  "dilate_mask mask_binary =
     map_nd (\<lambda>v. v * 255)
       (map_nd bool_to_u8 (binary_dilation (map_nd (\<lambda>v. 0 < v) mask_binary) 2))"

subsection \<open>Padding\<close>

text \<open>
  \<open>np.pad(a, ((0, pad_h), (0, pad_w)), mode="reflect")\<close>: the new cells after the end of
  an axis of length \<open>n\<close> mirror the axis about its last element, without repeating it, and
  the mirror image is itself mirrored when the pad is longer than the axis (period
  \<open>2 * (n - 1)\<close>). An axis of length 1 is extended by its only element. numpy refuses to
  extend an empty axis, and a negative pad width.
\<close>

definition reflect_index :: "nat \<Rightarrow> nat \<Rightarrow> nat" where
  "reflect_index n i =
     (if n \<le> 1 then 0
      else let p = 2 * (n - 1); j = i mod p in if j < n then j else p - j)"

definition np_pad_reflect :: "'a ndarray \<Rightarrow> int \<Rightarrow> int \<Rightarrow> exn + 'a ndarray" where
  "np_pad_reflect a pad_h pad_w =
     (if pad_h < 0 \<or> pad_w < 0 then Inl (ValueError ''index can't contain negative values'')
      else if (nrows a = 0 \<and> 0 < pad_h) \<or> (ncols a = 0 \<and> 0 < pad_w)
      then Inl (ValueError ''can't extend empty axis using modes other than 'constant' or 'empty' '')
      else Inr (tabulate2 (nrows a + nat pad_h) (ncols a + nat pad_w)
                  (\<lambda>y x. cell a (reflect_index (nrows a) y) (reflect_index (ncols a) x))))"

text \<open>
  \<open>LaMaInpainter._pad_to_multiple\<close>. \<open>multiple\<close> is a Python integer, so the two
  remainders are Python's (the sign of the divisor, as \<open>mod\<close> on \<open>int\<close>), and a zero
  \<open>multiple\<close> raises. The branch on \<open>len(img.shape)\<close> only adds the pad \<open>(0, 0)\<close> of the
  channel axis: both branches are this one function, on pixels or on mask cells.
\<close>

definition pad_to_multiple :: "'a ndarray \<Rightarrow> int \<Rightarrow> exn + ('a ndarray \<times> (nat \<times> nat))" where
  "pad_to_multiple img multiple =
     (let h = nrows img; w = ncols img in
      if multiple = 0 then Inl (ZeroDivisionError ''integer modulo by zero'')
      else
        let pad_h = (multiple - int h mod multiple) mod multiple;
            pad_w = (multiple - int w mod multiple) mod multiple
        in case np_pad_reflect img pad_h pad_w of
             Inl e \<Rightarrow> Inl e
           | Inr padded \<Rightarrow> Inr (padded, (h, w)))"

section \<open>Inference and compositing\<close>

definition bind_exn :: "exn + 'a \<Rightarrow> ('a \<Rightarrow> exn + 'b) \<Rightarrow> exn + 'b" where
  \<comment> \<open>sequencing: an exception raised by the first statement skips the rest\<close>
  "bind_exn r f = (case r of Inl e \<Rightarrow> Inl e | Inr v \<Rightarrow> f v)"

text \<open>
  numpy's elementwise binary operations broadcast: on each axis the two lengths are equal,
  or one of them is 1 and that operand is repeated; otherwise numpy raises
  \<open>ValueError\<close>. The channel axis has length 3 on both sides throughout.
\<close>

definition broadcast_dim :: "nat \<Rightarrow> nat \<Rightarrow> nat option" where
  "broadcast_dim m n =
     (if m = n then Some m else if m = 1 then Some n else if n = 1 then Some m else None)"

definition np_binop :: "('a \<Rightarrow> 'b \<Rightarrow> 'c) \<Rightarrow> 'a ndarray \<Rightarrow> 'b ndarray \<Rightarrow> exn + 'c ndarray" where
  "np_binop f a b =
     (case (broadcast_dim (nrows a) (nrows b), broadcast_dim (ncols a) (ncols b)) of
        (Some h, Some w) \<Rightarrow>
          Inr (tabulate2 h w
                 (\<lambda>y x. f (cell a (if nrows a = 1 then 0 else y) (if ncols a = 1 then 0 else x))
                          (cell b (if nrows b = 1 then 0 else y) (if ncols b = 1 then 0 else x))))
      | _ \<Rightarrow> Inl (ValueError ''operands could not be broadcast together''))"

text \<open>
  The compositing arithmetic of lines 111 to 114 is in \<open>float32\<close>. The dilated mask holds
  only 0 and 255 (see \<open>dilate_mask\<close>), so the weights are 0/255 and 255/255, the products
  are a \<open>uint8\<close> value times 0 or 1, and the sums are integers up to 255: binary32
  represents every one of these exactly, and the arithmetic is modelled by exact rationals.
  \<open>astype(np.uint8)\<close> drops the fraction (towards zero); a value outside 0..255 does not
  occur, and is reduced modulo 256 here.
\<close>

type_synonym f32 = rat

definition map3 :: "('a \<Rightarrow> 'b) \<Rightarrow> 'a \<times> 'a \<times> 'a \<Rightarrow> 'b \<times> 'b \<times> 'b" where
  "map3 f p = (case p of (r, g, b) \<Rightarrow> (f r, f g, f b))"

definition zip3 :: "('a \<Rightarrow> 'b \<Rightarrow> 'c) \<Rightarrow> 'a \<times> 'a \<times> 'a \<Rightarrow> 'b \<times> 'b \<times> 'b \<Rightarrow> 'c \<times> 'c \<times> 'c" where
  "zip3 f p q = (case (p, q) of ((r, g, b), (r', g', b')) \<Rightarrow> (f r r', f g g', f b b'))"

definition chan :: "nat \<Rightarrow> 'a \<times> 'a \<times> 'a \<Rightarrow> 'a" where
  \<comment> \<open>channel \<open>c\<close> of a pixel, \<open>c\<close> in 0, 1, 2\<close>
  "chan c p = (case p of (r, g, b) \<Rightarrow> if c = 0 then r else if c = 1 then g else b)"

definition u8_to_f32 :: "u8 \<Rightarrow> f32" where
  "u8_to_f32 v = of_nat (unat v)"

definition astype_u8 :: "f32 \<Rightarrow> u8" where
  "astype_u8 v = word_of_int (if 0 \<le> v then \<lfloor>v\<rfloor> else \<lceil>v\<rceil>)"

definition composite :: "rgb ndarray \<Rightarrow> u8 ndarray \<Rightarrow> rgb ndarray \<Rightarrow> exn + rgb ndarray" where
  \<comment> \<open>lines 111 to 114, on the cropped result and the cropped dilated mask\<close>
  "composite result mask_cropped original_image =
     (let mask_float = map_nd (\<lambda>v. u8_to_f32 v / 255) mask_cropped;
          mask_3ch = map_nd (\<lambda>v. (v, v, v)) mask_float
      in bind_exn (np_binop (\<lambda>p m. zip3 (*) (map3 u8_to_f32 p) m) result mask_3ch) (\<lambda>inpainted.
         bind_exn (np_binop (\<lambda>p m. zip3 (*) (map3 u8_to_f32 p) m) original_image
                     (map_nd (map3 (\<lambda>v. 1 - v)) mask_3ch)) (\<lambda>kept.
         bind_exn (np_binop (zip3 (+)) inpainted kept) (\<lambda>blended.
         Inr (map_nd (map3 astype_u8) blended)))))"

text \<open>
  \<open>LaMaInpainter.inpaint\<close> after the model is loaded. Lines 85 to 105 (normalising to
  floating point, zeroing the masked region, the forward pass of the pretrained network,
  clipping and the conversion back to \<open>uint8\<close>) are the parameter \<open>run_model\<close>: a function
  from the padded image and the padded mask to the \<open>uint8\<close> array of line 105, or to the
  exception the forward pass raises.
\<close>

definition inpaint_arrays ::
  "(rgb ndarray \<Rightarrow> u8 ndarray \<Rightarrow> exn + rgb ndarray) \<Rightarrow> rgb ndarray \<Rightarrow> u8 ndarray \<Rightarrow> exn + rgb ndarray" where
  "inpaint_arrays run_model img msk =
     (let original_image = img;
          mask_binary = binarize msk;
          mask_dilated = dilate_mask mask_binary
      in bind_exn (pad_to_multiple img 8) (\<lambda>(image_padded, (orig_h, orig_w)).
         bind_exn (pad_to_multiple mask_dilated 8) (\<lambda>(mask_padded, _).
         bind_exn (run_model image_padded mask_padded) (\<lambda>result.
         composite (crop orig_h orig_w result) (crop orig_h orig_w mask_dilated) original_image))))"

section \<open>The world outside the repository\<close>

text \<open>
  The libraries the service calls and cannot be read from this repository are parameters of
  the model, gathered in one record: the model hub, TorchScript, the network's forward pass
  (with lines 85 to 105 around it, see \<open>inpaint_arrays\<close>), and Pillow. \<open>'img\<close> is Pillow's
  image type. A call that can raise returns a sum. \<open>np.array(image)\<close> has one entry per
  mode the service reads (it converts to \<open>RGB\<close> or \<open>L\<close> first); it decodes the pixel data,
  which Pillow reads lazily, so it can raise.
\<close>

datatype script_module = ScriptModule nat

datatype resample = NEAREST | BILINEAR | BICUBIC

record 'img env =
  hf_hub_download :: "string \<Rightarrow> string \<Rightarrow> exn + string"
  torch_jit_load :: "string \<Rightarrow> exn + script_module"
  model_forward :: "script_module \<Rightarrow> rgb ndarray \<Rightarrow> u8 ndarray \<Rightarrow> exn + rgb ndarray"
  pil_open :: "u8 list \<Rightarrow> exn + 'img"
  pil_save :: "'img \<Rightarrow> string \<Rightarrow> exn + u8 list"
  pil_mode :: "'img \<Rightarrow> string"
  pil_convert :: "'img \<Rightarrow> string \<Rightarrow> exn + 'img"
  pil_resize :: "'img \<Rightarrow> nat \<times> nat \<Rightarrow> resample \<Rightarrow> 'img"
  np_array_rgb :: "'img \<Rightarrow> exn + rgb ndarray"
  np_array_l :: "'img \<Rightarrow> exn + u8 ndarray"
  fromarray_rgb :: "rgb ndarray \<Rightarrow> 'img"
  fromarray_l :: "u8 ndarray \<Rightarrow> 'img"

section \<open>The model handle and the singleton\<close>

text \<open>
  The process state: the instances of \<open>LaMaInpainter\<close> by address, the class attribute
  \<open>LaMaInpainter._instance\<close>, the module global \<open>_inpainter\<close>, and the calls made so far to
  the hub and to TorchScript. An instance has the attributes \<open>_initialized\<close>, \<open>device\<close> and
  \<open>model\<close>; between \<open>__new__\<close> and \<open>__init__\<close> the last two do not exist yet, which
  nothing can observe, since \<open>LaMaInpainter()\<close> runs both.
\<close>

datatype call = HfHubDownload string string | TorchJitLoad string

record lama_inpainter =
  initialized :: bool
  device :: string
  model :: "script_module option"

record process =
  heap :: "lama_inpainter list"
  cls_instance :: "nat option"
  global_inpainter :: "nat option"
  calls :: "call list"

definition initial_process :: process where
  "initial_process = \<lparr>heap = [], cls_instance = None, global_inpainter = None, calls = []\<rparr>"

definition LaMaInpainter_new :: "process \<Rightarrow> nat \<times> process" where
  \<comment> \<open>\<open>__new__\<close>: creates the instance when the class has none, and returns the class's\<close>
  "LaMaInpainter_new s =
     (case cls_instance s of
        None \<Rightarrow>
          let self = length (heap s)
          in (self, s\<lparr>heap := heap s @ [\<lparr>initialized = False, device = [], model = None\<rparr>],
                      cls_instance := Some self\<rparr>)
      | Some self \<Rightarrow> (self, s))"

definition LaMaInpainter_init :: "process \<Rightarrow> nat \<Rightarrow> process" where
  \<comment> \<open>\<open>__init__\<close>: returns at once on an instance already initialized\<close>
  "LaMaInpainter_init s self =
     (if initialized (heap s ! self) then s
      else s\<lparr>heap := (heap s)[self := \<lparr>initialized = True, device = ''cpu'', model = None\<rparr>]\<rparr>)"

definition LaMaInpainter :: "process \<Rightarrow> nat \<times> process" where
  \<comment> \<open>the call \<open>LaMaInpainter()\<close>: \<open>__new__\<close>, then \<open>__init__\<close> on what it returned\<close>
  "LaMaInpainter s = (case LaMaInpainter_new s of (self, s1) \<Rightarrow> (self, LaMaInpainter_init s1 self))"

definition get_inpainter :: "process \<Rightarrow> nat \<times> process" where
  "get_inpainter s =
     (case global_inpainter s of
        None \<Rightarrow> (case LaMaInpainter s of (self, s1) \<Rightarrow> (self, s1\<lparr>global_inpainter := Some self\<rparr>))
      | Some self \<Rightarrow> (self, s))"

text \<open>
  \<open>LaMaInpainter._load_model\<close>. The handle is assigned before \<open>self.model.eval()\<close>, which
  only switches the loaded module to evaluation mode; the prints are left out.
\<close>

definition load_model :: "'img env \<Rightarrow> process \<Rightarrow> nat \<Rightarrow> (exn + unit) \<times> process" where
  "load_model env s self =
     (if model (heap s ! self) \<noteq> None then (Inr (), s)
      else
        let s1 = s\<lparr>calls := calls s @ [HfHubDownload ''fashn-ai/LaMa'' ''big-lama.pt'']\<rparr>
        in case hf_hub_download env ''fashn-ai/LaMa'' ''big-lama.pt'' of
             Inl e \<Rightarrow> (Inl e, s1)
           | Inr model_path \<Rightarrow>
               let s2 = s1\<lparr>calls := calls s1 @ [TorchJitLoad model_path]\<rparr>
               in case torch_jit_load env model_path of
                    Inl e \<Rightarrow> (Inl e, s2)
                  | Inr m \<Rightarrow>
                      (Inr (), s2\<lparr>heap := (heap s2)[self := (heap s2 ! self)\<lparr>model := Some m\<rparr>]\<rparr>))"

text \<open>
  \<open>LaMaInpainter.inpaint\<close>: the model is loaded first, then the arrays go through
  \<open>inpaint_arrays\<close> with the loaded handle. Calling a handle that is \<open>None\<close> would raise
  \<open>TypeError\<close> at line 101.
\<close>

definition inpaint ::
  "'img env \<Rightarrow> process \<Rightarrow> nat \<Rightarrow> rgb ndarray \<Rightarrow> u8 ndarray \<Rightarrow> (exn + rgb ndarray) \<times> process" where
  "inpaint env s self img msk =
     (case load_model env s self of
        (Inl e, s1) \<Rightarrow> (Inl e, s1)
      | (Inr u, s1) \<Rightarrow>
          (inpaint_arrays
             (case model (heap s1 ! self) of
                Some m \<Rightarrow> model_forward env m
              | None \<Rightarrow> (\<lambda>image_padded mask_padded. Inl (TypeError ''NoneType object is not callable'')))
             img msk, s1))"

section \<open>Image utilities\<close>

definition image_to_numpy :: "'img env \<Rightarrow> 'img \<Rightarrow> exn + rgb ndarray" where
  "image_to_numpy env img =
     bind_exn (if pil_mode env img \<noteq> ''RGB'' then pil_convert env img ''RGB'' else Inr img)
       (np_array_rgb env)"

definition mask_to_numpy :: "'img env \<Rightarrow> 'img \<Rightarrow> exn + u8 ndarray" where
  "mask_to_numpy env msk =
     bind_exn (if pil_mode env msk \<noteq> ''L'' then pil_convert env msk ''L'' else Inr msk)
       (np_array_l env)"

definition numpy_to_image :: "'img env \<Rightarrow> rgb ndarray \<Rightarrow> 'img" where
  \<comment> \<open>the array is \<open>uint8\<close> by its type, so the clipping branch is not taken\<close>
  "numpy_to_image env array = fromarray_rgb env array"

subsection \<open>Base64 and data URLs\<close>

text \<open>
  A Python string is the list of the bytes of its UTF-8 encoding; every character the
  service tests for is ASCII. \<open>base64.b64encode\<close> is the encoding of RFC 4648 with
  padding. \<open>base64.b64decode\<close> without \<open>validate\<close> refuses a string that is not ASCII
  (\<open>ValueError\<close>) and otherwise decodes as \<open>binascii.a2b_base64\<close> does: characters
  outside the alphabet are skipped, a pad that completes a group ends the input, and data
  left in an incomplete group raises \<open>binascii.Error\<close>. The shifts of the C code are
  written as multiplications and divisions.
\<close>

definition b64_char :: "nat \<Rightarrow> char" where
  "b64_char n =
     (if n < 26 then char_of (n + 65)
      else if n < 52 then char_of (n + 71)
      else if n < 62 then char_of (n - 4)
      else if n = 62 then CHR ''+'' else CHR ''/'')"

definition b64_index :: "char \<Rightarrow> nat option" where
  "b64_index c =
     (let n = of_char c :: nat in
      if 65 \<le> n \<and> n \<le> 90 then Some (n - 65)
      else if 97 \<le> n \<and> n \<le> 122 then Some (n - 71)
      else if 48 \<le> n \<and> n \<le> 57 then Some (n + 4)
      else if n = 43 then Some 62
      else if n = 47 then Some 63
      else None)"

fun b64encode :: "u8 list \<Rightarrow> string" where
  "b64encode (a # b # c # rest) =
     [b64_char (unat a div 4), b64_char (unat a mod 4 * 16 + unat b div 16),
      b64_char (unat b mod 16 * 4 + unat c div 64), b64_char (unat c mod 64)] @ b64encode rest"
| "b64encode [a, b] =
     [b64_char (unat a div 4), b64_char (unat a mod 4 * 16 + unat b div 16),
      b64_char (unat b mod 16 * 4), CHR ''='']"
| "b64encode [a] = [b64_char (unat a div 4), b64_char (unat a mod 4 * 16), CHR ''='', CHR ''='']"
| "b64encode [] = []"

fun a2b_base64 :: "nat \<Rightarrow> nat \<Rightarrow> nat \<Rightarrow> u8 list \<Rightarrow> string \<Rightarrow> exn + u8 list" where
  "a2b_base64 quad_pos leftchar pads out [] =
     (if quad_pos = 0 then Inr out
      else if quad_pos = 1
      then Inl (BinasciiError ''Invalid base64-encoded string: number of data characters cannot be 1 more than a multiple of 4'')
      else Inl (BinasciiError ''Incorrect padding''))"
| "a2b_base64 quad_pos leftchar pads out (ch # rest) =
     (if ch = CHR ''='' then
        (if 2 \<le> quad_pos \<and> 4 \<le> quad_pos + (pads + 1) then Inr out
         else a2b_base64 quad_pos leftchar (if 2 \<le> quad_pos then pads + 1 else pads) out rest)
      else
        case b64_index ch of
          None \<Rightarrow> a2b_base64 quad_pos leftchar pads out rest
        | Some v \<Rightarrow>
            if quad_pos = 0 then a2b_base64 1 v 0 out rest
            else if quad_pos = 1
            then a2b_base64 2 (v mod 16) 0 (out @ [of_nat (leftchar * 4 + v div 16)]) rest
            else if quad_pos = 2
            then a2b_base64 3 (v mod 4) 0 (out @ [of_nat (leftchar * 16 + v div 4)]) rest
            else a2b_base64 0 0 0 (out @ [of_nat (leftchar * 64 + v)]) rest)"

definition b64decode :: "string \<Rightarrow> exn + u8 list" where
  "b64decode s =
     (if list_ex (\<lambda>ch. 128 \<le> (of_char ch :: nat)) s
      then Inl (ValueError ''string argument should contain only ASCII characters'')
      else a2b_base64 0 0 0 [] s)"

definition strip_prefix :: "string \<Rightarrow> string \<Rightarrow> string option" where
  "strip_prefix p s = (if take (length p) s = p then Some (drop (length p) s) else None)"

text \<open>
  \<open>re.match(r"data:image/[^;]+;base64,(.+)", data_url)\<close>, giving group 1. The match is
  anchored at the start only. \<open>[^;]+\<close> takes the longest run without a semicolon (no shorter
  one can be followed by the semicolon of the pattern) and must not be empty; \<open>.\<close> matches
  every character but the newline, so group 1 is the longest run without a newline, and must
  not be empty.
\<close>

definition match_data_url :: "string \<Rightarrow> string option" where
  "match_data_url data_url =
     (case strip_prefix ''data:image/'' data_url of
        None \<Rightarrow> None
      | Some r \<Rightarrow>
          if takeWhile (\<lambda>ch. ch \<noteq> CHR '';'') r = [] then None
          else case strip_prefix '';base64,'' (dropWhile (\<lambda>ch. ch \<noteq> CHR '';'') r) of
                 None \<Rightarrow> None
               | Some p \<Rightarrow>
                   if takeWhile (\<lambda>ch. ch \<noteq> CHR 0x0A) p = [] then None
                   else Some (takeWhile (\<lambda>ch. ch \<noteq> CHR 0x0A) p))"

definition decode_base64_image :: "'img env \<Rightarrow> string \<Rightarrow> exn + 'img" where
  "decode_base64_image env data_url =
     bind_exn
       (if take 5 data_url = ''data:'' then
          (case match_data_url data_url of
             Some base64_data \<Rightarrow> Inr base64_data
           | None \<Rightarrow> Inl (ValueError ''Invalid data URL format''))
        else Inr data_url)
       (\<lambda>base64_data. bind_exn (b64decode base64_data) (\<lambda>image_bytes. pil_open env image_bytes))"

definition lower :: "string \<Rightarrow> string" where
  \<comment> \<open>\<open>str.lower\<close>, on the ASCII letters\<close>
  "lower s = map (\<lambda>ch. if 65 \<le> (of_char ch :: nat) \<and> (of_char ch :: nat) \<le> 90
                       then char_of (of_char ch + (32 :: nat)) else ch) s"

definition encode_image_to_base64 :: "'img env \<Rightarrow> 'img \<Rightarrow> string \<Rightarrow> exn + string" where
  "encode_image_to_base64 env img format =
     bind_exn (pil_save env img format) (\<lambda>buffer.
       let base64_data = b64encode buffer;
           mime_type = ''image/'' @ lower format
       in Inr (''data:'' @ mime_type @ '';base64,'' @ base64_data))"

section \<open>The service and the route\<close>

definition match_mask_to_image :: "'img env \<Rightarrow> rgb ndarray \<Rightarrow> u8 ndarray \<Rightarrow> exn + u8 ndarray" where
  \<comment> \<open>lines 150 to 154 of \<open>inpaint_image\<close>; Pillow's size is (width, height)\<close>
  "match_mask_to_image env image_np mask_np =
     (if (nrows mask_np, ncols mask_np) \<noteq> (nrows image_np, ncols image_np)
      then np_array_l env
             (pil_resize env (fromarray_l env mask_np) (ncols image_np, nrows image_np) NEAREST)
      else Inr mask_np)"

definition inpaint_image :: "'img env \<Rightarrow> process \<Rightarrow> 'img \<Rightarrow> 'img \<Rightarrow> (exn + 'img) \<times> process" where
  "inpaint_image env s img msk =
     (case get_inpainter s of
        (inpainter, s1) \<Rightarrow>
          (case bind_exn (image_to_numpy env img) (\<lambda>image_np.
                  bind_exn (mask_to_numpy env msk) (\<lambda>mask_np.
                  bind_exn (match_mask_to_image env image_np mask_np) (\<lambda>mask_np.
                  Inr (image_np, mask_np)))) of
             Inl e \<Rightarrow> (Inl e, s1)
           | Inr (image_np, mask_np) \<Rightarrow>
               (case inpaint env s1 inpainter image_np mask_np of
                  (Inl e, s2) \<Rightarrow> (Inl e, s2)
                | (Inr result_np, s2) \<Rightarrow> (Inr (numpy_to_image env result_np), s2))))"

record inpaint_request =
  image_str :: string
  mask_str :: string

datatype http_response = InpaintResponse string | HTTPException nat string

definition http_error :: "exn \<Rightarrow> http_response" where
  \<comment> \<open>the two \<open>except\<close> clauses of the route, in their order\<close>
  "http_error e =
     (if isinstance_ValueError e then HTTPException 400 (''Invalid image data: '' @ str_exn e)
      else HTTPException 500 (''Inpainting failed: '' @ str_exn e))"

definition inpaint_route :: "'img env \<Rightarrow> process \<Rightarrow> inpaint_request \<Rightarrow> http_response \<times> process" where
  "inpaint_route env s request =
     (case decode_base64_image env (image_str request) of
        Inl e \<Rightarrow> (http_error e, s)
      | Inr img \<Rightarrow>
          (case decode_base64_image env (mask_str request) of
             Inl e \<Rightarrow> (http_error e, s)
           | Inr msk \<Rightarrow>
               (case inpaint_image env s img msk of
                  (Inl e, s1) \<Rightarrow> (http_error e, s1)
                | (Inr result, s1) \<Rightarrow>
                    (case encode_image_to_base64 env result ''PNG'' of
                       Inl e \<Rightarrow> (http_error e, s1)
                     | Inr result_base64 \<Rightarrow> (InpaintResponse result_base64, s1)))))"

text \<open>
  What \<open>composite\<close> computes at one pixel, from the pixel of the cropped result, the cell
  of the cropped dilated mask and the pixel of the original image.
\<close>

definition blend_pixel :: "rgb \<Rightarrow> u8 \<Rightarrow> rgb \<Rightarrow> rgb" where
  "blend_pixel r m orig =
     (let w = u8_to_f32 m / 255 in
      map3 astype_u8
        (zip3 (+) (zip3 (*) (map3 u8_to_f32 r) (w, w, w))
                  (zip3 (*) (map3 u8_to_f32 orig) (map3 (\<lambda>v. 1 - v) (w, w, w)))))"

text \<open>
  The states the process can be in: the class's instance exists, and the global, once set,
  is that instance.
\<close>

definition consistent :: "process \<Rightarrow> bool" where
  "consistent s =
     (case cls_instance s of
        None \<Rightarrow> global_inpainter s = None
      | Some a \<Rightarrow> a < length (heap s)
                 \<and> (case global_inpainter s of None \<Rightarrow> True | Some b \<Rightarrow> b = a))"

section \<open>A small run\<close>

text \<open>
  A 2 by 4 image, a mask with one set cell in the corner, and a stand-in for the network
  that paints every pixel of the padded image in one colour. The dilation reaches the cells
  at distance 2 from the corner and leaves three cells unset.
\<close>

definition example_image :: "rgb ndarray" where
  "example_image =
     \<lparr>nrows = 2, ncols = 4,
      cells = [[(10, 20, 30), (11, 21, 31), (12, 22, 32), (13, 23, 33)],
               [(14, 24, 34), (15, 25, 35), (16, 26, 36), (17, 27, 37)]]\<rparr>"

definition example_mask :: "u8 ndarray" where
  "example_mask = \<lparr>nrows = 2, ncols = 4, cells = [[200, 0, 0, 0], [0, 0, 0, 0]]\<rparr>"

definition example_model :: "rgb ndarray \<Rightarrow> u8 ndarray \<Rightarrow> exn + rgb ndarray" where
  "example_model image_padded mask_padded = Inr (map_nd (\<lambda>p. (7, 8, 9)) image_padded)"

text \<open>
  A stand-in for the world, to run the service on concrete inputs: the hub and TorchScript
  succeed, the network is \<open>example_model\<close>, images are arrays tagged with their mode, the
  only file Pillow can read or write is the one of \<open>example_image\<close>, and resizing samples
  the nearest cell.
\<close>

datatype raster = RasterRGB "rgb ndarray" | RasterL "u8 ndarray"

definition example_png :: "u8 list" where
  "example_png = [137, 80, 78, 71, 13, 10, 26, 10]"

definition example_env :: "raster env" where
  "example_env =
     \<lparr>hf_hub_download = (\<lambda>repo_id filename. Inr ''/cache/big-lama.pt''),
      torch_jit_load = (\<lambda>path. Inr (ScriptModule 0)),
      model_forward = (\<lambda>m. example_model),
      pil_open = (\<lambda>bytes. if bytes = example_png then Inr (RasterRGB example_image)
                          else Inl (UnidentifiedImageError ''cannot identify image file'')),
      pil_save = (\<lambda>img format. if img = RasterRGB example_image \<and> format = ''PNG''
                                then Inr example_png else Inl (OSError ''cannot write file'')),
      pil_mode = (\<lambda>img. case img of RasterRGB a \<Rightarrow> ''RGB'' | RasterL a \<Rightarrow> ''L''),
      pil_convert = (\<lambda>img mode.
         case img of
           RasterL a \<Rightarrow> if mode = ''RGB'' then Inr (RasterRGB (map_nd (\<lambda>v. (v, v, v)) a))
                        else if mode = ''L'' then Inr img
                        else Inl (ValueError ''conversion not supported'')
         | RasterRGB a \<Rightarrow> if mode = ''RGB'' then Inr img
                          else Inl (ValueError ''conversion not supported'')),
      pil_resize = (\<lambda>img size resample.
         case (img, size) of
           (RasterL a, (w, h)) \<Rightarrow>
             RasterL (tabulate2 h w (\<lambda>y x. cell a ((2 * y + 1) * nrows a div (2 * h))
                                               ((2 * x + 1) * ncols a div (2 * w))))
         | (RasterRGB a, (w, h)) \<Rightarrow>
             RasterRGB (tabulate2 h w (\<lambda>y x. cell a ((2 * y + 1) * nrows a div (2 * h))
                                                 ((2 * x + 1) * ncols a div (2 * w))))),
      np_array_rgb = (\<lambda>img. case img of RasterRGB a \<Rightarrow> Inr a
                                        | RasterL a \<Rightarrow> Inl (TypeError ''not a three-channel image'')),
      np_array_l = (\<lambda>img. case img of RasterL a \<Rightarrow> Inr a
                                      | RasterRGB a \<Rightarrow> Inl (TypeError ''not a single-channel image'')),
      fromarray_rgb = RasterRGB,
      fromarray_l = RasterL\<rparr>"

definition example_small_mask :: "u8 ndarray" where
  "example_small_mask = \<lparr>nrows = 1, ncols = 2, cells = [[200, 0]]\<rparr>"

section \<open>Arrays: basic facts\<close>

lemma nrows_tabulate2 [simp]: "nrows (tabulate2 h w f) = h"
  by (simp add: tabulate2_def)

lemma ncols_tabulate2 [simp]: "ncols (tabulate2 h w f) = w"
  by (simp add: tabulate2_def)

lemma cell_tabulate2 [simp]: "y < h \<Longrightarrow> x < w \<Longrightarrow> cell (tabulate2 h w f) y x = f y x"
  by (simp add: tabulate2_def cell_def)

lemma well_shaped_tabulate2 [simp]: "well_shaped (tabulate2 h w f)"
  by (auto simp: tabulate2_def well_shaped_def)

lemma nrows_map_nd [simp]: "nrows (map_nd f a) = nrows a"
  by (simp add: map_nd_def)

lemma ncols_map_nd [simp]: "ncols (map_nd f a) = ncols a"
  by (simp add: map_nd_def)

lemma map_nd_map_nd: "map_nd f (map_nd g a) = map_nd (f \<circ> g) a"
  by (simp add: map_nd_def)

lemma well_shaped_map_nd [simp]: "well_shaped a \<Longrightarrow> well_shaped (map_nd f a)"
  by (auto simp: map_nd_def well_shaped_def)

lemma cell_map_nd [simp]:
  "well_shaped a \<Longrightarrow> y < nrows a \<Longrightarrow> x < ncols a \<Longrightarrow> cell (map_nd f a) y x = f (cell a y x)"
  by (auto simp: map_nd_def well_shaped_def cell_def)

lemma ndarray_eqI:
  assumes "well_shaped a" "well_shaped b" "nrows a = nrows b" "ncols a = ncols b"
    and "\<And>y x. y < nrows a \<Longrightarrow> x < ncols a \<Longrightarrow> cell a y x = cell b y x"
  shows "a = (b :: 'a ndarray)"
proof -
  have len: "length (cells a) = length (cells b)"
    using assms(1-3) by (simp add: well_shaped_def)
  have "cells a ! y = cells b ! y" if "y < length (cells a)" for y
  proof (rule nth_equalityI)
    show "length (cells a ! y) = length (cells b ! y)"
      using assms(1,2,4) that len by (simp add: well_shaped_def)
    show "cells a ! y ! x = cells b ! y ! x" if "x < length (cells a ! y)" for x
      using assms(5)[of y x] assms(1) \<open>y < length (cells a)\<close> that
      by (simp add: well_shaped_def cell_def)
  qed
  then have "cells a = cells b"
    using len by (simp add: nth_equalityI)
  then show ?thesis
    using assms(3,4) by simp
qed

lemma nrows_crop [simp]: "nrows (crop h w a) = min h (nrows a)"
  by (simp add: crop_def)

lemma ncols_crop [simp]: "ncols (crop h w a) = min w (ncols a)"
  by (simp add: crop_def)

lemma well_shaped_crop [simp]: "well_shaped a \<Longrightarrow> well_shaped (crop h w a)"
  by (auto simp: crop_def well_shaped_def dest: in_set_takeD)

lemma cell_crop [simp]:
  "well_shaped a \<Longrightarrow> y < min h (nrows a) \<Longrightarrow> x < min w (ncols a) \<Longrightarrow> cell (crop h w a) y x = cell a y x"
  by (auto simp: crop_def well_shaped_def cell_def)

lemma crop_same [simp]: "well_shaped a \<Longrightarrow> crop (nrows a) (ncols a) a = a"
proof -
  assume a: "well_shaped a"
  then have "map (take (ncols a)) (cells a) = cells a"
    by (intro map_idI) (simp add: well_shaped_def)
  with a show ?thesis
    by (simp add: crop_def well_shaped_def)
qed

section \<open>Binarization is idempotent\<close>

lemma binarize_cell: "binarize m = map_nd (\<lambda>v. if 127 < v then 255 else 0) m"
proof -
  have "(\<lambda>v. bool_to_u8 (127 < v) * 255) = (\<lambda>v::u8. if 127 < v then 255 else 0)"
    by (auto simp: bool_to_u8_def)
  then show ?thesis
    by (simp add: binarize_def map_nd_map_nd comp_def)
qed

text \<open>
  C6. Binarizing a mask twice gives the same array as binarizing it once, for every mask:
  a cell above 127 becomes 255, which is above 127 again, and any other cell becomes 0,
  which is not.
\<close>

theorem binarize_idempotent: "binarize (binarize m) = binarize m"
proof -
  have "(\<lambda>v::u8. if 127 < (if 127 < v then 255 else 0 :: u8) then 255 else 0 :: u8)
      = (\<lambda>v. if 127 < v then 255 else 0)"
    by auto
  then show ?thesis
    by (simp add: binarize_cell map_nd_map_nd comp_def)
qed

section \<open>Padding\<close>

lemma reflect_index_id: "i < n \<Longrightarrow> reflect_index n i = i"
proof (cases "n \<le> 1")
  case True
  assume "i < n"
  with True show ?thesis by (simp add: reflect_index_def)
next
  case False
  assume "i < n"
  with False have "i < 2 * (n - 1)" by linarith
  then have "i mod (2 * (n - 1)) = i" by simp
  with False \<open>i < n\<close> show ?thesis by (simp add: reflect_index_def Let_def)
qed

lemma reflect_index_less: "0 < n \<Longrightarrow> reflect_index n i < n"
proof (cases "n \<le> 1")
  case True
  assume "0 < n"
  with True show ?thesis by (simp add: reflect_index_def)
next
  case False
  then have "i mod (2 * (n - 1)) < 2 * (n - 1)" by simp
  then have "\<not> i mod (2 * (n - 1)) < n \<Longrightarrow> 2 * (n - 1) - i mod (2 * (n - 1)) < n"
    by linarith
  with False show ?thesis
    by (simp add: reflect_index_def Let_def)
qed

lemma round_up_8:
  fixes n :: nat
  shows "n \<le> (n + 7) div 8 * 8" "(n + 7) div 8 * 8 \<le> n + 7" "(n + 7) div 8 * 8 mod 8 = 0"
proof -
  have "(n + 7) div 8 * 8 + (n + 7) mod 8 = n + 7" by simp
  moreover have "(n + 7) mod 8 < 8" by simp
  ultimately show "n \<le> (n + 7) div 8 * 8" "(n + 7) div 8 * 8 \<le> n + 7"
    by linarith+
  show "(n + 7) div 8 * 8 mod 8 = 0" by simp
qed

lemma pad_nat: "(8 - n mod 8) mod 8 = (n + 7) div 8 * 8 - (n::nat)"
proof -
  define q where "q = n div 8"
  define r where "r = n mod 8"
  have n: "n = 8 * q + r" and r: "r < 8"
    by (simp_all add: q_def r_def)
  show ?thesis
  proof (cases "r = 0")
    case True
    then show ?thesis unfolding n by simp
  next
    case False
    with r have "(8 * q + r + 7) div 8 = q + 1"
      by (simp add: div_nat_eqI)
    moreover have "(8 * q + r) mod 8 = r" using r by simp
    ultimately show ?thesis unfolding n using r False by simp
  qed
qed

lemma pad_amount: "(8 - int n mod 8) mod 8 = int ((n + 7) div 8 * 8 - n)"
proof -
  have "int ((8 - n mod 8) mod 8) = (8 - int n mod 8) mod 8"
    by (simp add: zmod_int of_nat_diff)
  then show ?thesis
    by (simp only: pad_nat [symmetric])
qed

lemma pad_to_multiple_8:
  "pad_to_multiple img 8 =
     Inr (tabulate2 ((nrows img + 7) div 8 * 8) ((ncols img + 7) div 8 * 8)
            (\<lambda>y x. cell img (reflect_index (nrows img) y) (reflect_index (ncols img) x)),
          (nrows img, ncols img))"
proof -
  define kh where "kh = (nrows img + 7) div 8 * 8 - nrows img"
  define kw where "kw = (ncols img + 7) div 8 * 8 - ncols img"
  have ph: "(8 - int (nrows img) mod 8) mod 8 = int kh"
    unfolding kh_def by (rule pad_amount)
  have pw: "(8 - int (ncols img) mod 8) mod 8 = int kw"
    unfolding kw_def by (rule pad_amount)
  have h: "nrows img + kh = (nrows img + 7) div 8 * 8"
    unfolding kh_def using round_up_8(1) [of "nrows img"] by simp
  have w: "ncols img + kw = (ncols img + 7) div 8 * 8"
    unfolding kw_def using round_up_8(1) [of "ncols img"] by simp
  have h0: "nrows img = 0 \<Longrightarrow> kh = 0"
    unfolding kh_def by simp
  have w0: "ncols img = 0 \<Longrightarrow> kw = 0"
    unfolding kw_def by simp
  have "np_pad_reflect img (int kh) (int kw) =
      Inr (tabulate2 (nrows img + kh) (ncols img + kw)
            (\<lambda>y x. cell img (reflect_index (nrows img) y) (reflect_index (ncols img) x)))"
    using h0 w0 by (auto simp: np_pad_reflect_def)
  then show ?thesis
    unfolding pad_to_multiple_def Let_def ph pw by (simp add: h w)
qed

text \<open>
  C4. Padding any array to a multiple of 8 succeeds; each padded dimension is the original
  one rounded up to the next multiple of 8, so it is a multiple of 8 and between 0 and 7
  larger than the original; the recorded pair is the original \<open>(h, w)\<close>.
\<close>

theorem pad_to_multiple_dimensions:
  "\<exists>padded. pad_to_multiple img 8 = Inr (padded, (nrows img, ncols img))
     \<and> nrows padded = (nrows img + 7) div 8 * 8
     \<and> ncols padded = (ncols img + 7) div 8 * 8
     \<and> nrows padded mod 8 = 0 \<and> ncols padded mod 8 = 0
     \<and> nrows img \<le> nrows padded \<and> nrows padded \<le> nrows img + 7
     \<and> ncols img \<le> ncols padded \<and> ncols padded \<le> ncols img + 7"
  by (simp add: pad_to_multiple_8 round_up_8)

text \<open>
  C10. Padding adds rows below and columns to the right only: the padded array cropped
  back to the recorded \<open>(h, w)\<close> is the original array, cell for cell.
\<close>

theorem pad_then_crop_is_original:
  assumes "well_shaped img"
  shows "\<exists>padded h w. pad_to_multiple img 8 = Inr (padded, (h, w)) \<and> crop h w padded = img"
proof -
  let ?H = "(nrows img + 7) div 8 * 8" and ?W = "(ncols img + 7) div 8 * 8"
  let ?p = "tabulate2 ?H ?W
    (\<lambda>y x. cell img (reflect_index (nrows img) y) (reflect_index (ncols img) x))"
  have le: "nrows img \<le> ?H" "ncols img \<le> ?W"
    by (rule round_up_8)+
  have "crop (nrows img) (ncols img) ?p = img"
  proof (rule ndarray_eqI)
    show "well_shaped (crop (nrows img) (ncols img) ?p)" by simp
    show "well_shaped img" by (rule assms)
    show "nrows (crop (nrows img) (ncols img) ?p) = nrows img" using le by simp
    show "ncols (crop (nrows img) (ncols img) ?p) = ncols img" using le by simp
  next
    fix y x
    assume "y < nrows (crop (nrows img) (ncols img) ?p)" "x < ncols (crop (nrows img) (ncols img) ?p)"
    then have yx: "y < nrows img" "x < ncols img" using le by simp_all
    then show "cell (crop (nrows img) (ncols img) ?p) y x = cell img y x"
      using le by (simp add: reflect_index_id)
  qed
  then show ?thesis
    unfolding pad_to_multiple_8 by blast
qed

section \<open>Compositing\<close>

lemma np_binop_same_shape:
  assumes "nrows a = nrows b" "ncols a = ncols b"
  shows "\<exists>c. np_binop f a b = Inr c \<and> well_shaped c \<and> nrows c = nrows a \<and> ncols c = ncols a
           \<and> (\<forall>y<nrows a. \<forall>x<ncols a. cell c y x = f (cell a y x) (cell b y x))"
proof -
  let ?c = "tabulate2 (nrows a) (ncols a)
      (\<lambda>y x. f (cell a (if nrows a = 1 then 0 else y) (if ncols a = 1 then 0 else x))
               (cell b (if nrows b = 1 then 0 else y) (if ncols b = 1 then 0 else x)))"
  have "np_binop f a b = Inr ?c"
    using assms by (simp add: np_binop_def broadcast_dim_def)
  moreover have "cell ?c y x = f (cell a y x) (cell b y x)" if "y < nrows a" "x < ncols a" for y x
    using that assms by auto
  ultimately show ?thesis
    by (intro exI [of _ ?c]) simp
qed

lemma astype_u8_of_u8: "astype_u8 (u8_to_f32 v) = v"
proof -
  have "u8_to_f32 v = of_int (uint v)"
    by (simp add: u8_to_f32_def)
  moreover have "(0::rat) \<le> of_int (uint v)"
    by (simp del: of_int_uint)
  ultimately have "astype_u8 (u8_to_f32 v) = word_of_int \<lfloor>of_int (uint v) :: rat\<rfloor>"
    by (simp only: astype_u8_def if_True)
  then show ?thesis
    by (simp only: floor_of_int word_of_int_uint)
qed

lemma blend_pixel_0: "blend_pixel r 0 orig = orig"
  by (cases orig; cases r) (simp add: blend_pixel_def map3_def zip3_def astype_u8_of_u8 u8_to_f32_def[of 0])

lemma blend_pixel_255: "blend_pixel r 255 orig = r"
  by (cases orig; cases r) (simp add: blend_pixel_def map3_def zip3_def astype_u8_of_u8 u8_to_f32_def[of 255])

lemma composite_same_shape:
  assumes "well_shaped result" "well_shaped m" "well_shaped orig"
    and "nrows result = nrows orig" "ncols result = ncols orig"
    and "nrows m = nrows orig" "ncols m = ncols orig"
  shows "\<exists>final. composite result m orig = Inr final \<and> well_shaped final
           \<and> nrows final = nrows orig \<and> ncols final = ncols orig
           \<and> (\<forall>y<nrows orig. \<forall>x<ncols orig.
                 cell final y x = blend_pixel (cell result y x) (cell m y x) (cell orig y x))"
proof -
  let ?w3 = "map_nd (\<lambda>v. (v, v, v)) (map_nd (\<lambda>v. u8_to_f32 v / 255) m)"
  let ?mul = "\<lambda>p m. zip3 (*) (map3 u8_to_f32 p) m"
  obtain a where a: "np_binop ?mul result ?w3 = Inr a" "well_shaped a"
      "nrows a = nrows orig" "ncols a = ncols orig"
      "\<forall>y<nrows orig. \<forall>x<ncols orig. cell a y x = ?mul (cell result y x) (cell ?w3 y x)"
    using np_binop_same_shape [of result ?w3 ?mul] assms by auto
  obtain b where b: "np_binop ?mul orig (map_nd (map3 (\<lambda>v. 1 - v)) ?w3) = Inr b" "well_shaped b"
      "nrows b = nrows orig" "ncols b = ncols orig"
      "\<forall>y<nrows orig. \<forall>x<ncols orig.
          cell b y x = ?mul (cell orig y x) (cell (map_nd (map3 (\<lambda>v. 1 - v)) ?w3) y x)"
    using np_binop_same_shape [of orig "map_nd (map3 (\<lambda>v. 1 - v)) ?w3" ?mul] assms by auto
  obtain c where c: "np_binop (zip3 (+)) a b = Inr c" "well_shaped c"
      "nrows c = nrows orig" "ncols c = ncols orig"
      "\<forall>y<nrows orig. \<forall>x<ncols orig. cell c y x = zip3 (+) (cell a y x) (cell b y x)"
    using np_binop_same_shape [of a b "zip3 (+)"] a(3,4) b(3,4) by auto
  have comp: "composite result m orig = Inr (map_nd (map3 astype_u8) c)"
    by (simp add: composite_def Let_def bind_exn_def a(1) b(1) c(1))
  have "cell (map_nd (map3 astype_u8) c) y x
        = blend_pixel (cell result y x) (cell m y x) (cell orig y x)"
    if "y < nrows orig" "x < ncols orig" for y x
    using that a(5) b(5) c(2-5) assms by (simp add: blend_pixel_def Let_def)
  then show ?thesis
    using comp c(2-4) by (intro exI [of _ "map_nd (map3 astype_u8) c"]) simp
qed

lemma nrows_dilate_step [simp]: "nrows (dilate_step a) = nrows a"
  by (simp add: dilate_step_def)

lemma ncols_dilate_step [simp]: "ncols (dilate_step a) = ncols a"
  by (simp add: dilate_step_def)

lemma well_shaped_dilate_step [simp]: "well_shaped (dilate_step a)"
  by (simp add: dilate_step_def)

lemma binary_dilation_2: "binary_dilation a 2 = dilate_step (dilate_step a)"
  by (simp add: binary_dilation_def numeral_2_eq_2)

lemma nrows_dilate_mask [simp]: "nrows (dilate_mask mb) = nrows mb"
  by (simp add: dilate_mask_def binary_dilation_2)

lemma ncols_dilate_mask [simp]: "ncols (dilate_mask mb) = ncols mb"
  by (simp add: dilate_mask_def binary_dilation_2)

lemma well_shaped_dilate_mask [simp]: "well_shaped (dilate_mask mb)"
  by (simp add: dilate_mask_def binary_dilation_2)

lemma nrows_binarize [simp]: "nrows (binarize m) = nrows m"
  by (simp add: binarize_def)

lemma ncols_binarize [simp]: "ncols (binarize m) = ncols m"
  by (simp add: binarize_def)

lemma dilate_mask_cell:
  assumes "y < nrows mb" "x < ncols mb"
  shows "cell (dilate_mask mb) y x = 0 \<or> cell (dilate_mask mb) y x = 255"
  using assms by (simp add: dilate_mask_def binary_dilation_2 bool_to_u8_def)

lemma inpaint_arrays_pixels:
  assumes "well_shaped img" "nrows msk = nrows img" "ncols msk = ncols img"
    and "pad_to_multiple img 8 = Inr (image_padded, hw)"
    and "pad_to_multiple (dilate_mask (binarize msk)) 8 = Inr (mask_padded, hw')"
    and "run_model image_padded mask_padded = Inr result"
    and "well_shaped result" "nrows result = nrows image_padded" "ncols result = ncols image_padded"
  shows "\<exists>final. inpaint_arrays run_model img msk = Inr final \<and> well_shaped final
           \<and> nrows final = nrows img \<and> ncols final = ncols img
           \<and> (\<forall>y<nrows img. \<forall>x<ncols img.
                 cell final y x =
                   blend_pixel (cell (crop (nrows img) (ncols img) result) y x)
                     (cell (crop (nrows img) (ncols img) (dilate_mask (binarize msk))) y x)
                     (cell img y x))"
proof -
  let ?h = "nrows img" and ?w = "ncols img"
  let ?md = "dilate_mask (binarize msk)"
  have hw: "hw = (?h, ?w)" and ip: "nrows image_padded = (?h + 7) div 8 * 8"
      "ncols image_padded = (?w + 7) div 8 * 8"
    using assms(4) by (auto simp: pad_to_multiple_8)
  have le: "?h \<le> nrows result" "?w \<le> ncols result"
    using assms(8,9) ip round_up_8(1) by simp_all
  have unfold: "inpaint_arrays run_model img msk
      = composite (crop ?h ?w result) (crop ?h ?w ?md) img"
    by (simp add: inpaint_arrays_def Let_def bind_exn_def assms(4,5,6) hw)
  have "\<exists>final. composite (crop ?h ?w result) (crop ?h ?w ?md) img = Inr final
      \<and> well_shaped final \<and> nrows final = ?h \<and> ncols final = ?w
      \<and> (\<forall>y<?h. \<forall>x<?w. cell final y x =
            blend_pixel (cell (crop ?h ?w result) y x) (cell (crop ?h ?w ?md) y x) (cell img y x))"
    using assms(1,2,3,7) le by (intro composite_same_shape) simp_all
  then show ?thesis
    by (simp only: unfold)
qed

lemma cropped_mask_cell:
  assumes "nrows msk = nrows img" "ncols msk = ncols img" "y < nrows img" "x < ncols img"
  shows "cell (crop (nrows img) (ncols img) (dilate_mask (binarize msk))) y x = 0
       \<or> cell (crop (nrows img) (ncols img) (dilate_mask (binarize msk))) y x = 255"
  using assms dilate_mask_cell [of y "binarize msk" x] by simp

lemma example_shapes:
  "well_shaped example_image" "well_shaped example_mask"
  "nrows example_mask = nrows example_image" "ncols example_mask = ncols example_image"
  "nrows example_image = 2" "ncols example_image = 4"
  by (simp_all add: well_shaped_def example_image_def example_mask_def)

lemma example_dilated:
  "dilate_mask (binarize example_mask)
     = \<lparr>nrows = 2, ncols = 4, cells = [[255, 255, 255, 0], [255, 255, 0, 0]]\<rparr>"
  by code_simp

text \<open>The whole of \<open>inpaint_arrays\<close> on the small run.\<close>

lemma example_inpaint:
  "inpaint_arrays example_model example_image example_mask =
     Inr \<lparr>nrows = 2, ncols = 4,
          cells = [[(7, 8, 9), (7, 8, 9), (7, 8, 9), (13, 23, 33)],
                   [(7, 8, 9), (7, 8, 9), (16, 26, 36), (17, 27, 37)]]\<rparr>"
  by code_simp

theorem pad_then_crop_is_original_witness:
  "well_shaped example_image
   \<and> (\<exists>padded h w. pad_to_multiple example_image 8 = Inr (padded, (h, w))
         \<and> nrows padded = 8 \<and> ncols padded = 8 \<and> h = 2 \<and> w = 4
         \<and> crop h w padded = example_image)"
proof -
  have ws: "well_shaped example_image"
    by (rule example_shapes)
  from pad_then_crop_is_original [OF ws] obtain padded h w where
    p: "pad_to_multiple example_image 8 = Inr (padded, (h, w))" "crop h w padded = example_image"
    by blast
  from p(1) have "nrows padded = 8" "ncols padded = 8" "h = 2" "w = 4"
    by (auto simp: pad_to_multiple_8 example_shapes(5,6))
  with ws p show ?thesis
    by blast
qed

text \<open>
  C1. Let image and mask be arrays of one shape, and let the network return an array of the
  shape of its (padded) input. Then \<open>inpaint_arrays\<close> (what \<open>inpaint\<close> computes once the
  model is loaded) returns an image of the shape of the input image, and at every pixel
  position where the cropped dilated mask is 0 the returned pixel is the pixel of the input
  image, on all three channels.
\<close>

theorem outside_mask_is_original:
  assumes "well_shaped img" "well_shaped msk" "nrows msk = nrows img" "ncols msk = ncols img"
    and "pad_to_multiple img 8 = Inr (image_padded, hw)"
    and "pad_to_multiple (dilate_mask (binarize msk)) 8 = Inr (mask_padded, hw')"
    and "run_model image_padded mask_padded = Inr result"
    and "well_shaped result" "nrows result = nrows image_padded" "ncols result = ncols image_padded"
  shows "\<exists>final. inpaint_arrays run_model img msk = Inr final
           \<and> nrows final = nrows img \<and> ncols final = ncols img
           \<and> (\<forall>y<nrows img. \<forall>x<ncols img.
                 cell (crop (nrows img) (ncols img) (dilate_mask (binarize msk))) y x = 0
                 \<longrightarrow> cell final y x = cell img y x)"
proof -
  obtain final where f: "inpaint_arrays run_model img msk = Inr final"
      "nrows final = nrows img" "ncols final = ncols img"
      "\<forall>y<nrows img. \<forall>x<ncols img. cell final y x =
          blend_pixel (cell (crop (nrows img) (ncols img) result) y x)
            (cell (crop (nrows img) (ncols img) (dilate_mask (binarize msk))) y x) (cell img y x)"
    using inpaint_arrays_pixels [where run_model = run_model, OF assms(1,3-10)] by blast
  have "cell final y x = cell img y x"
    if "y < nrows img" "x < ncols img"
      "cell (crop (nrows img) (ncols img) (dilate_mask (binarize msk))) y x = 0" for y x
    using f(4) that by (simp add: blend_pixel_0)
  with f(1-3) show ?thesis by blast
qed

lemma round_u8: "round (u8_to_f32 v) = uint v"
proof -
  have "u8_to_f32 v = of_int (uint v)" by (simp add: u8_to_f32_def)
  then show ?thesis by (simp only: round_of_int)
qed

lemma chan_cases: "c < 3 \<Longrightarrow> c = 0 \<or> c = 1 \<or> c = (2::nat)"
  by linarith

text \<open>
  C3. Under the same hypothesis, every channel of every pixel of the returned image is
  \<open>round (model_output * weight + original_input * (1 - weight))\<close>, where \<open>weight\<close> is
  the cell of the cropped dilated mask divided by 255, the same for the three channels. (The
  code drops the fraction instead of rounding; the blend is always an integer.)
\<close>

theorem composite_is_rounded_blend:
  assumes "well_shaped img" "well_shaped msk" "nrows msk = nrows img" "ncols msk = ncols img"
    and "pad_to_multiple img 8 = Inr (image_padded, hw)"
    and "pad_to_multiple (dilate_mask (binarize msk)) 8 = Inr (mask_padded, hw')"
    and "run_model image_padded mask_padded = Inr result"
    and "well_shaped result" "nrows result = nrows image_padded" "ncols result = ncols image_padded"
  shows "\<exists>final. inpaint_arrays run_model img msk = Inr final
           \<and> nrows final = nrows img \<and> ncols final = ncols img
           \<and> (\<forall>y<nrows img. \<forall>x<ncols img. \<forall>c<3.
                 uint (chan c (cell final y x)) =
                   (let weight = u8_to_f32
                          (cell (crop (nrows img) (ncols img) (dilate_mask (binarize msk))) y x) / 255
                    in round (u8_to_f32 (chan c (cell (crop (nrows img) (ncols img) result) y x)) * weight
                              + u8_to_f32 (chan c (cell img y x)) * (1 - weight))))"
proof -
  let ?m = "crop (nrows img) (ncols img) (dilate_mask (binarize msk))"
  let ?r = "crop (nrows img) (ncols img) result"
  obtain final where f: "inpaint_arrays run_model img msk = Inr final"
      "nrows final = nrows img" "ncols final = ncols img"
      "\<forall>y<nrows img. \<forall>x<ncols img. cell final y x =
          blend_pixel (cell ?r y x) (cell ?m y x) (cell img y x)"
    using inpaint_arrays_pixels [where run_model = run_model, OF assms(1,3-10)] by blast
  have "uint (chan c (cell final y x)) =
      (let weight = u8_to_f32 (cell ?m y x) / 255
       in round (u8_to_f32 (chan c (cell ?r y x)) * weight
                 + u8_to_f32 (chan c (cell img y x)) * (1 - weight)))"
    if yx: "y < nrows img" "x < ncols img" and c: "c < 3" for y x c
  proof -
    have px: "cell final y x = blend_pixel (cell ?r y x) (cell ?m y x) (cell img y x)"
      using f(4) yx by simp
    from cropped_mask_cell [OF assms(3,4) yx] show ?thesis
    proof
      assume m: "cell ?m y x = 0"
      then have "cell final y x = cell img y x"
        using px by (simp add: blend_pixel_0)
      then show ?thesis
        by (simp add: m Let_def round_u8 u8_to_f32_def [of 0])
    next
      assume m: "cell ?m y x = 255"
      then have "cell final y x = cell ?r y x"
        using px by (simp add: blend_pixel_255)
      then show ?thesis
        by (simp add: m Let_def round_u8 u8_to_f32_def [of 255])
    qed
  qed
  with f(1-3) show ?thesis by blast
qed

text \<open>
  C9. After binarization and dilation every mask cell is 0 or 255, so every blend weight
  is 0 or 1, and every pixel of the returned image is the pixel of the (cropped) model
  output or the pixel of the input image.
\<close>

theorem no_fractional_blending:
  assumes "well_shaped img" "well_shaped msk" "nrows msk = nrows img" "ncols msk = ncols img"
    and "pad_to_multiple img 8 = Inr (image_padded, hw)"
    and "pad_to_multiple (dilate_mask (binarize msk)) 8 = Inr (mask_padded, hw')"
    and "run_model image_padded mask_padded = Inr result"
    and "well_shaped result" "nrows result = nrows image_padded" "ncols result = ncols image_padded"
  shows "\<exists>final. inpaint_arrays run_model img msk = Inr final
           \<and> nrows final = nrows img \<and> ncols final = ncols img
           \<and> (\<forall>y<nrows img. \<forall>x<ncols img.
                 (cell (dilate_mask (binarize msk)) y x = 0
                    \<or> cell (dilate_mask (binarize msk)) y x = 255)
               \<and> (u8_to_f32 (cell (crop (nrows img) (ncols img) (dilate_mask (binarize msk))) y x) / 255 = 0
                    \<or> u8_to_f32 (cell (crop (nrows img) (ncols img) (dilate_mask (binarize msk))) y x) / 255 = 1)
               \<and> (cell final y x = cell (crop (nrows img) (ncols img) result) y x
                    \<or> cell final y x = cell img y x))"
proof -
  let ?m = "crop (nrows img) (ncols img) (dilate_mask (binarize msk))"
  let ?r = "crop (nrows img) (ncols img) result"
  obtain final where f: "inpaint_arrays run_model img msk = Inr final"
      "nrows final = nrows img" "ncols final = ncols img"
      "\<forall>y<nrows img. \<forall>x<ncols img. cell final y x =
          blend_pixel (cell ?r y x) (cell ?m y x) (cell img y x)"
    using inpaint_arrays_pixels [where run_model = run_model, OF assms(1,3-10)] by blast
  have "(cell (dilate_mask (binarize msk)) y x = 0 \<or> cell (dilate_mask (binarize msk)) y x = 255)
      \<and> (u8_to_f32 (cell ?m y x) / 255 = 0 \<or> u8_to_f32 (cell ?m y x) / 255 = 1)
      \<and> (cell final y x = cell ?r y x \<or> cell final y x = cell img y x)"
    if yx: "y < nrows img" "x < ncols img" for y x
  proof -
    have px: "cell final y x = blend_pixel (cell ?r y x) (cell ?m y x) (cell img y x)"
      using f(4) yx by simp
    have same: "cell ?m y x = cell (dilate_mask (binarize msk)) y x"
      using yx assms(3,4) by simp
    from cropped_mask_cell [OF assms(3,4) yx] show ?thesis
    proof
      assume m: "cell ?m y x = 0"
      then show ?thesis
        using px same by (simp add: blend_pixel_0 u8_to_f32_def [of 0])
    next
      assume m: "cell ?m y x = 255"
      then show ?thesis
        using px same by (simp add: blend_pixel_255 u8_to_f32_def [of 255])
    qed
  qed
  with f(1-3) show ?thesis by blast
qed

theorem outside_mask_is_original_witness:
  "well_shaped example_image \<and> well_shaped example_mask
   \<and> (\<exists>final. inpaint_arrays example_model example_image example_mask = Inr final
        \<and> cell (crop 2 4 (dilate_mask (binarize example_mask))) 0 3 = 0
        \<and> cell final 0 3 = cell example_image 0 3)"
proof -
  let ?ip = "tabulate2 ((nrows example_image + 7) div 8 * 8) ((ncols example_image + 7) div 8 * 8)
      (\<lambda>y x. cell example_image (reflect_index (nrows example_image) y)
                (reflect_index (ncols example_image) x))"
  have run: "example_model ?ip mp = Inr (map_nd (\<lambda>p. (7, 8, 9)) ?ip)" for mp
    by (simp add: example_model_def)
  have "\<exists>final. inpaint_arrays example_model example_image example_mask = Inr final
           \<and> nrows final = nrows example_image \<and> ncols final = ncols example_image
           \<and> (\<forall>y<nrows example_image. \<forall>x<ncols example_image.
                 cell (crop (nrows example_image) (ncols example_image)
                        (dilate_mask (binarize example_mask))) y x = 0
                 \<longrightarrow> cell final y x = cell example_image y x)"
    by (rule outside_mask_is_original [where run_model = example_model,
          OF example_shapes(1-4) pad_to_multiple_8 pad_to_multiple_8 run]) simp_all
  then obtain final where f: "inpaint_arrays example_model example_image example_mask = Inr final"
    "\<forall>y<2. \<forall>x<4. cell (crop 2 4 (dilate_mask (binarize example_mask))) y x = 0
        \<longrightarrow> cell final y x = cell example_image y x"
    by (auto simp: example_shapes(5,6))
  have m: "cell (crop 2 4 (dilate_mask (binarize example_mask))) 0 3 = 0"
    by (simp add: example_dilated crop_def cell_def)
  with f(2) have "cell final 0 3 = cell example_image 0 3"
    by simp
  with f(1) m example_shapes(1,2) show ?thesis
    by blast
qed

lemma example_cells:
  "cell example_image 0 2 = (12, 22, 32)" "cell example_image 0 3 = (13, 23, 33)"
  "cell (crop 2 4 (dilate_mask (binarize example_mask))) 0 2 = 255"
  "cell (crop 2 4 (dilate_mask (binarize example_mask))) 0 3 = 0"
  "cell (dilate_mask (binarize example_mask)) 0 2 = 255"
  "cell (dilate_mask (binarize example_mask)) 0 3 = 0"
  by (simp_all add: example_dilated example_image_def crop_def cell_def)

lemma example_result_cell:
  assumes "nrows a = 8" "ncols a = 8" "well_shaped a" "y < 2" "x < 4"
  shows "cell (crop 2 4 (map_nd (\<lambda>p. (7, 8, 9)) a)) y x = (7, 8, 9)"
  using assms by simp

lemma u8_to_f32_numeral: "u8_to_f32 9 = 9" "u8_to_f32 32 = 32" "u8_to_f32 33 = 33"
  "u8_to_f32 255 = 255" "u8_to_f32 0 = 0"
  by (simp_all add: u8_to_f32_def)

theorem composite_is_rounded_blend_witness:
  "well_shaped example_image \<and> well_shaped example_mask
   \<and> (\<exists>final. inpaint_arrays example_model example_image example_mask = Inr final
        \<and> uint (chan 2 (cell final 0 2)) = round (9 * (255 / 255) + 32 * (1 - 255 / 255) :: rat)
        \<and> uint (chan 2 (cell final 0 2)) = 9
        \<and> uint (chan 2 (cell final 0 3)) = round (9 * (0 / 255) + 33 * (1 - 0 / 255) :: rat)
        \<and> uint (chan 2 (cell final 0 3)) = 33)"
proof -
  let ?ip = "tabulate2 ((nrows example_image + 7) div 8 * 8) ((ncols example_image + 7) div 8 * 8)
      (\<lambda>y x. cell example_image (reflect_index (nrows example_image) y)
                (reflect_index (ncols example_image) x))"
  let ?r = "map_nd (\<lambda>p. (7, 8, 9) :: rgb) ?ip"
  have run: "example_model ?ip mp = Inr ?r" for mp
    by (simp add: example_model_def)
  have "\<exists>final. inpaint_arrays example_model example_image example_mask = Inr final
           \<and> nrows final = nrows example_image \<and> ncols final = ncols example_image
           \<and> (\<forall>y<nrows example_image. \<forall>x<ncols example_image. \<forall>c<3.
                 uint (chan c (cell final y x)) =
                   (let weight = u8_to_f32
                          (cell (crop (nrows example_image) (ncols example_image)
                                  (dilate_mask (binarize example_mask))) y x) / 255
                    in round (u8_to_f32 (chan c (cell (crop (nrows example_image) (ncols example_image) ?r) y x)) * weight
                              + u8_to_f32 (chan c (cell example_image y x)) * (1 - weight))))"
    by (rule composite_is_rounded_blend [where run_model = example_model,
          OF example_shapes(1-4) pad_to_multiple_8 pad_to_multiple_8 run]) simp_all
  then obtain final where f: "inpaint_arrays example_model example_image example_mask = Inr final"
    "\<forall>y<2. \<forall>x<4. \<forall>c<3.
        uint (chan c (cell final y x)) =
          (let weight = u8_to_f32 (cell (crop 2 4 (dilate_mask (binarize example_mask))) y x) / 255
           in round (u8_to_f32 (chan c (cell (crop 2 4 ?r) y x)) * weight
                     + u8_to_f32 (chan c (cell example_image y x)) * (1 - weight)))"
    by (auto simp: example_shapes(5,6))
  have r: "cell (crop 2 4 ?r) 0 2 = (7, 8, 9)" "cell (crop 2 4 ?r) 0 3 = (7, 8, 9)"
    by (rule example_result_cell; simp add: example_shapes(5,6))+
  have a: "uint (chan 2 (cell final 0 2)) = round (9 * (255 / 255) + 32 * (1 - 255 / 255) :: rat)"
    using f(2) [rule_format, of 0 2 2]
    by (simp add: r example_cells chan_def Let_def u8_to_f32_numeral)
  have b: "uint (chan 2 (cell final 0 3)) = round (9 * (0 / 255) + 33 * (1 - 0 / 255) :: rat)"
    using f(2) [rule_format, of 0 3 2]
    by (simp add: r example_cells chan_def Let_def u8_to_f32_numeral)
  have "round (9 * (255 / 255) + 32 * (1 - 255 / 255) :: rat) = 9"
    "round (9 * (0 / 255) + 33 * (1 - 0 / 255) :: rat) = 33"
    by simp_all
  with a b f(1) example_shapes(1,2) show ?thesis
    by (intro conjI exI [of _ final]) simp_all
qed

theorem no_fractional_blending_witness:
  "well_shaped example_image \<and> well_shaped example_mask
   \<and> (\<exists>final. inpaint_arrays example_model example_image example_mask = Inr final
        \<and> cell (dilate_mask (binarize example_mask)) 0 2 = 255
        \<and> (cell final 0 2 = (7, 8, 9) \<or> cell final 0 2 = cell example_image 0 2)
        \<and> cell (dilate_mask (binarize example_mask)) 0 3 = 0
        \<and> (cell final 0 3 = (7, 8, 9) \<or> cell final 0 3 = cell example_image 0 3))"
proof -
  let ?ip = "tabulate2 ((nrows example_image + 7) div 8 * 8) ((ncols example_image + 7) div 8 * 8)
      (\<lambda>y x. cell example_image (reflect_index (nrows example_image) y)
                (reflect_index (ncols example_image) x))"
  let ?r = "map_nd (\<lambda>p. (7, 8, 9) :: rgb) ?ip"
  let ?m = "dilate_mask (binarize example_mask)"
  have run: "example_model ?ip mp = Inr ?r" for mp
    by (simp add: example_model_def)
  have "\<exists>final. inpaint_arrays example_model example_image example_mask = Inr final
           \<and> nrows final = nrows example_image \<and> ncols final = ncols example_image
           \<and> (\<forall>y<nrows example_image. \<forall>x<ncols example_image.
                 (cell ?m y x = 0 \<or> cell ?m y x = 255)
               \<and> (u8_to_f32 (cell (crop (nrows example_image) (ncols example_image) ?m) y x) / 255 = 0
                    \<or> u8_to_f32 (cell (crop (nrows example_image) (ncols example_image) ?m) y x) / 255 = 1)
               \<and> (cell final y x = cell (crop (nrows example_image) (ncols example_image) ?r) y x
                    \<or> cell final y x = cell example_image y x))"
    by (rule no_fractional_blending [where run_model = example_model,
          OF example_shapes(1-4) pad_to_multiple_8 pad_to_multiple_8 run]) simp_all
  then obtain final where f: "inpaint_arrays example_model example_image example_mask = Inr final"
    "\<forall>y<2. \<forall>x<4. cell final y x = cell (crop 2 4 ?r) y x \<or> cell final y x = cell example_image y x"
    by (auto simp: example_shapes(5,6))
  have r: "cell (crop 2 4 ?r) 0 2 = (7, 8, 9)" "cell (crop 2 4 ?r) 0 3 = (7, 8, 9)"
    by (rule example_result_cell; simp add: example_shapes(5,6))+
  have "cell final 0 2 = (7, 8, 9) \<or> cell final 0 2 = cell example_image 0 2"
    "cell final 0 3 = (7, 8, 9) \<or> cell final 0 3 = cell example_image 0 3"
    using f(2) [rule_format, of 0 2] f(2) [rule_format, of 0 3] by (simp_all add: r)
  with f(1) example_shapes(1,2) show ?thesis
    by (intro conjI exI [of _ final]) (simp_all add: example_cells)
qed

section \<open>The singleton and the model handle\<close>

lemma get_inpainter_again: "get_inpainter s = (a, s1) \<Longrightarrow> get_inpainter s1 = (a, s1)"
  by (cases "global_inpainter s"; cases "LaMaInpainter s") (auto simp: get_inpainter_def)

lemma LaMaInpainter_new_props:
  assumes "LaMaInpainter_new s = (a, s1)"
  shows "cls_instance s1 = Some a" "global_inpainter s1 = global_inpainter s" "calls s1 = calls s"
    "(case cls_instance s of None \<Rightarrow> True | Some b \<Rightarrow> b < length (heap s)) \<Longrightarrow> a < length (heap s1)"
  using assms by (cases "cls_instance s"; auto simp: LaMaInpainter_new_def Let_def)+

lemma LaMaInpainter_init_props:
  "cls_instance (LaMaInpainter_init s a) = cls_instance s"
  "global_inpainter (LaMaInpainter_init s a) = global_inpainter s"
  "calls (LaMaInpainter_init s a) = calls s"
  "length (heap (LaMaInpainter_init s a)) = length (heap s)"
  by (simp_all add: LaMaInpainter_init_def)

lemma LaMaInpainter_props:
  assumes "LaMaInpainter s = (a, s1)"
  shows "cls_instance s1 = Some a" "global_inpainter s1 = global_inpainter s" "calls s1 = calls s"
    "(case cls_instance s of None \<Rightarrow> True | Some b \<Rightarrow> b < length (heap s)) \<Longrightarrow> a < length (heap s1)"
proof -
  obtain s0 where n: "LaMaInpainter_new s = (a, s0)" and s1: "s1 = LaMaInpainter_init s0 a"
    using assms by (cases "LaMaInpainter_new s") (auto simp: LaMaInpainter_def)
  show "cls_instance s1 = Some a" "global_inpainter s1 = global_inpainter s" "calls s1 = calls s"
    using LaMaInpainter_new_props(1-3) [OF n] by (simp_all add: s1 LaMaInpainter_init_props)
  show "a < length (heap s1)" if "case cls_instance s of None \<Rightarrow> True | Some b \<Rightarrow> b < length (heap s)"
    using LaMaInpainter_new_props(4) [OF n that] by (simp add: s1 LaMaInpainter_init_props)
qed

lemma get_inpainter_consistent:
  assumes "consistent s" "get_inpainter s = (a, s1)"
  shows "consistent s1" "cls_instance s1 = Some a" "global_inpainter s1 = Some a"
    "a < length (heap s1)" "calls s1 = calls s"
proof -
  have all: "consistent s1 \<and> cls_instance s1 = Some a \<and> global_inpainter s1 = Some a
      \<and> a < length (heap s1) \<and> calls s1 = calls s"
  proof (cases "global_inpainter s")
    case None
    obtain s0 where l: "LaMaInpainter s = (a, s0)" and s1: "s1 = s0\<lparr>global_inpainter := Some a\<rparr>"
      using assms(2) None by (cases "LaMaInpainter s") (auto simp: get_inpainter_def)
    have pre: "case cls_instance s of None \<Rightarrow> True | Some b \<Rightarrow> b < length (heap s)"
      using assms(1) by (cases "cls_instance s") (simp_all add: consistent_def)
    from LaMaInpainter_props(1,3) [OF l] LaMaInpainter_props(4) [OF l pre] show ?thesis
      by (simp add: s1 consistent_def)
  next
    case (Some b)
    with assms(2) have eq: "b = a" "s1 = s"
      by (simp_all add: get_inpainter_def)
    from assms(1) Some eq show ?thesis
      by (cases "cls_instance s") (simp_all add: consistent_def)
  qed
  then show "consistent s1" "cls_instance s1 = Some a" "global_inpainter s1 = Some a"
    "a < length (heap s1)" "calls s1 = calls s"
    by simp_all
qed

lemma load_model_loaded:
  "model (heap s ! a) \<noteq> None \<Longrightarrow> load_model env s a = (Inr (), s)"
  by (simp add: load_model_def)

lemma load_model_unloaded:
  assumes "model (heap s ! a) = None"
  shows "load_model env s a =
    (case hf_hub_download env ''fashn-ai/LaMa'' ''big-lama.pt'' of
       Inl e \<Rightarrow> (Inl e, s\<lparr>calls := calls s @ [HfHubDownload ''fashn-ai/LaMa'' ''big-lama.pt'']\<rparr>)
     | Inr path \<Rightarrow>
        (case torch_jit_load env path of
           Inl e \<Rightarrow> (Inl e, s\<lparr>calls := calls s @ [HfHubDownload ''fashn-ai/LaMa'' ''big-lama.pt'', TorchJitLoad path]\<rparr>)
         | Inr m \<Rightarrow> (Inr (), s\<lparr>calls := calls s @ [HfHubDownload ''fashn-ai/LaMa'' ''big-lama.pt'', TorchJitLoad path],
                              heap := (heap s)[a := (heap s ! a)\<lparr>model := Some m\<rparr>]\<rparr>)))"
  using assms
  by (cases "hf_hub_download env ''fashn-ai/LaMa'' ''big-lama.pt''")
     (simp_all add: load_model_def Let_def split: sum.split)

lemma load_model_frame:
  assumes "load_model env s a = (r, s2)"
  shows "cls_instance s2 = cls_instance s" "global_inpainter s2 = global_inpainter s"
    "length (heap s2) = length (heap s)"
proof -
  have "cls_instance s2 = cls_instance s \<and> global_inpainter s2 = global_inpainter s
      \<and> length (heap s2) = length (heap s)"
  proof (cases "model (heap s ! a) = None")
    case True
    show ?thesis
    proof (cases "hf_hub_download env ''fashn-ai/LaMa'' ''big-lama.pt''")
      case (Inl e)
      with assms True show ?thesis by (auto simp: load_model_unloaded)
    next
      case (Inr path)
      with assms True show ?thesis
        by (cases "torch_jit_load env path") (auto simp: load_model_unloaded)
    qed
  next
    case False
    with assms show ?thesis by (simp add: load_model_def)
  qed
  then show "cls_instance s2 = cls_instance s" "global_inpainter s2 = global_inpainter s"
    "length (heap s2) = length (heap s)"
    by simp_all
qed

lemma load_model_first:
  assumes "a < length (heap s)" "model (heap s ! a) = None" "load_model env s a = (Inr (), s2)"
  shows "\<exists>path m. hf_hub_download env ''fashn-ai/LaMa'' ''big-lama.pt'' = Inr path
           \<and> torch_jit_load env path = Inr m
           \<and> model (heap s2 ! a) = Some m
           \<and> calls s2 = calls s @ [HfHubDownload ''fashn-ai/LaMa'' ''big-lama.pt'', TorchJitLoad path]"
proof (cases "hf_hub_download env ''fashn-ai/LaMa'' ''big-lama.pt''")
  case (Inl e)
  with assms show ?thesis by (simp add: load_model_unloaded)
next
  case (Inr path)
  show ?thesis
  proof (cases "torch_jit_load env path")
    case (Inl e)
    with assms Inr show ?thesis by (simp add: load_model_unloaded)
  next
    case m: (Inr m)
    with assms Inr show ?thesis by (auto simp: load_model_unloaded)
  qed
qed

lemma load_model_sets_handle:
  assumes "a < length (heap s)" "load_model env s a = (Inr (), s2)"
  shows "model (heap s2 ! a) \<noteq> None"
proof (cases "model (heap s ! a) = None")
  case True
  from load_model_first [OF assms(1) True assms(2)] show ?thesis by auto
next
  case False
  with assms(2) show ?thesis by (simp add: load_model_def)
qed

lemma funpow_fixed: "f x = x \<Longrightarrow> (f ^^ n) x = x"
  by (induction n) simp_all

text \<open>
  C8. In a consistent state, \<open>get_inpainter\<close> returns the class's single instance, and
  returns it again, unchanged, on every later call, also after any call to \<open>_load_model\<close>.
  The first \<open>_load_model\<close> that returns has downloaded the checkpoint once, deserialized it
  once and set the handle; every \<open>_load_model\<close> after one that returned, or on an instance
  whose handle is set, returns at once and leaves the state as it is, however many times it
  is called.
\<close>

theorem model_acquired_once:
  assumes "consistent s" "get_inpainter s = (a, s1)"
  shows "get_inpainter s1 = (a, s1) \<and> cls_instance s1 = Some a \<and> a < length (heap s1)
       \<and> (\<forall>r s2. load_model env s1 a = (r, s2) \<longrightarrow> consistent s2 \<and> get_inpainter s2 = (a, s2))
       \<and> (model (heap s1 ! a) = None \<longrightarrow>
            (\<forall>s2. load_model env s1 a = (Inr (), s2) \<longrightarrow>
               (\<exists>path m. hf_hub_download env ''fashn-ai/LaMa'' ''big-lama.pt'' = Inr path
                  \<and> torch_jit_load env path = Inr m
                  \<and> model (heap s2 ! a) = Some m
                  \<and> calls s2 = calls s1 @ [HfHubDownload ''fashn-ai/LaMa'' ''big-lama.pt'', TorchJitLoad path])))
       \<and> (\<forall>s2. load_model env s1 a = (Inr (), s2) \<longrightarrow>
            model (heap s2 ! a) \<noteq> None \<and> load_model env s2 a = (Inr (), s2)
            \<and> (\<forall>n. ((\<lambda>t. snd (load_model env t a)) ^^ n) s2 = s2))
       \<and> (model (heap s1 ! a) \<noteq> None \<longrightarrow> load_model env s1 a = (Inr (), s1))
       \<and> (\<forall>n. ((\<lambda>t. snd (get_inpainter t)) ^^ n) s1 = s1)"
proof -
  note c = get_inpainter_consistent [OF assms]
  have again: "get_inpainter s1 = (a, s1)"
    by (rule get_inpainter_again [OF assms(2)])
  have frame: "consistent s2 \<and> get_inpainter s2 = (a, s2)" if "load_model env s1 a = (r, s2)" for r s2
    using load_model_frame [OF that] c(2-4) by (simp add: consistent_def get_inpainter_def)
  have first: "\<exists>path m. hf_hub_download env ''fashn-ai/LaMa'' ''big-lama.pt'' = Inr path
        \<and> torch_jit_load env path = Inr m \<and> model (heap s2 ! a) = Some m
        \<and> calls s2 = calls s1 @ [HfHubDownload ''fashn-ai/LaMa'' ''big-lama.pt'', TorchJitLoad path]"
    if "model (heap s1 ! a) = None" "load_model env s1 a = (Inr (), s2)" for s2
    by (rule load_model_first [OF c(4) that])
  have later: "model (heap s2 ! a) \<noteq> None \<and> load_model env s2 a = (Inr (), s2)"
    if "load_model env s1 a = (Inr (), s2)" for s2
  proof -
    have "model (heap s2 ! a) \<noteq> None"
      by (rule load_model_sets_handle [OF c(4) that])
    then show ?thesis
      by (simp add: load_model_loaded)
  qed
  show ?thesis
  proof (intro conjI allI impI)
    show "get_inpainter s1 = (a, s1)" by (rule again)
    show "cls_instance s1 = Some a" by (rule c(2))
    show "a < length (heap s1)" by (rule c(4))
    show "consistent s2" if "load_model env s1 a = (r, s2)" for r s2
      using frame [OF that] by simp
    show "get_inpainter s2 = (a, s2)" if "load_model env s1 a = (r, s2)" for r s2
      using frame [OF that] by simp
    show "\<exists>path m. hf_hub_download env ''fashn-ai/LaMa'' ''big-lama.pt'' = Inr path
        \<and> torch_jit_load env path = Inr m \<and> model (heap s2 ! a) = Some m
        \<and> calls s2 = calls s1 @ [HfHubDownload ''fashn-ai/LaMa'' ''big-lama.pt'', TorchJitLoad path]"
      if "model (heap s1 ! a) = None" "load_model env s1 a = (Inr (), s2)" for s2
      by (rule first [OF that])
    show "model (heap s2 ! a) \<noteq> None" if "load_model env s1 a = (Inr (), s2)" for s2
      using later [OF that] by simp
    show "load_model env s2 a = (Inr (), s2)" if "load_model env s1 a = (Inr (), s2)" for s2
      using later [OF that] by simp
    show "((\<lambda>t. snd (load_model env t a)) ^^ n) s2 = s2"
      if "load_model env s1 a = (Inr (), s2)" for s2 n
      using later [OF that] by (intro funpow_fixed) simp
    show "((\<lambda>t. snd (get_inpainter t)) ^^ n) s1 = s1" for n
      using again by (intro funpow_fixed) simp
    show "load_model env s1 a = (Inr (), s1)" if "model (heap s1 ! a) \<noteq> None"
      by (rule load_model_loaded [OF that])
  qed
qed

lemma example_get_inpainter:
  "get_inpainter initial_process =
     (0, \<lparr>heap = [\<lparr>initialized = True, device = ''cpu'', model = None\<rparr>],
          cls_instance = Some 0, global_inpainter = Some 0, calls = []\<rparr>)"
  by (simp add: get_inpainter_def LaMaInpainter_def LaMaInpainter_new_def LaMaInpainter_init_def
      initial_process_def Let_def)

lemma example_load_model:
  "load_model example_env
     \<lparr>heap = [\<lparr>initialized = True, device = ''cpu'', model = None\<rparr>],
      cls_instance = Some 0, global_inpainter = Some 0, calls = []\<rparr> 0 =
     (Inr (), \<lparr>heap = [\<lparr>initialized = True, device = ''cpu'', model = Some (ScriptModule 0)\<rparr>],
               cls_instance = Some 0, global_inpainter = Some 0,
               calls = [HfHubDownload ''fashn-ai/LaMa'' ''big-lama.pt'', TorchJitLoad ''/cache/big-lama.pt'']\<rparr>)"
  by (simp add: load_model_def example_env_def Let_def)

theorem model_acquired_once_witness:
  "consistent initial_process
   \<and> (\<exists>s1 s2. get_inpainter initial_process = (0, s1) \<and> get_inpainter s1 = (0, s1)
        \<and> model (heap s1 ! 0) = None
        \<and> load_model example_env s1 0 = (Inr (), s2)
        \<and> model (heap s2 ! 0) = Some (ScriptModule 0)
        \<and> calls s2 = [HfHubDownload ''fashn-ai/LaMa'' ''big-lama.pt'', TorchJitLoad ''/cache/big-lama.pt'']
        \<and> load_model example_env s2 0 = (Inr (), s2)
        \<and> get_inpainter s2 = (0, s2))"
proof -
  let ?s1 = "\<lparr>heap = [\<lparr>initialized = True, device = ''cpu'', model = None\<rparr>],
      cls_instance = Some 0, global_inpainter = Some 0, calls = []\<rparr>"
  let ?s2 = "\<lparr>heap = [\<lparr>initialized = True, device = ''cpu'', model = Some (ScriptModule 0)\<rparr>],
      cls_instance = Some 0, global_inpainter = Some 0,
      calls = [HfHubDownload ''fashn-ai/LaMa'' ''big-lama.pt'', TorchJitLoad ''/cache/big-lama.pt'']\<rparr>"
  have c: "consistent initial_process"
    by (simp add: consistent_def initial_process_def)
  note t = model_acquired_once [where env = example_env, OF c example_get_inpainter]
  have "get_inpainter ?s1 = (0, ?s1)"
    using t by blast
  moreover have "load_model example_env ?s2 0 = (Inr (), ?s2)" "get_inpainter ?s2 = (0, ?s2)"
    using t example_load_model by blast+
  ultimately show ?thesis
    using c example_get_inpainter example_load_model
    by (intro conjI exI [of _ ?s1] exI [of _ ?s2]) simp_all
qed

section \<open>The service: the mask is brought to the image's size\<close>

lemma inpaint_returns:
  assumes "self < length (heap s1)" "well_shaped img" "nrows msk = nrows img" "ncols msk = ncols img"
    and "hf_hub_download env ''fashn-ai/LaMa'' ''big-lama.pt'' = Inr path"
    and "torch_jit_load env path = Inr m0"
    and net: "\<forall>m a b. well_shaped a \<longrightarrow>
          (\<exists>r. model_forward env m a b = Inr r \<and> well_shaped r \<and> nrows r = nrows a \<and> ncols r = ncols a)"
  shows "\<exists>final s2. inpaint env s1 self img msk = (Inr final, s2)
           \<and> nrows final = nrows img \<and> ncols final = ncols img"
proof -
  have "\<exists>s2 m. load_model env s1 self = (Inr (), s2) \<and> model (heap s2 ! self) = Some m"
  proof (cases "model (heap s1 ! self) = None")
    case True
    then show ?thesis
      using assms(1,5,6) by (simp add: load_model_unloaded)
  next
    case False
    then show ?thesis
      by (auto simp: load_model_loaded)
  qed
  then obtain s2 m where l: "load_model env s1 self = (Inr (), s2)" "model (heap s2 ! self) = Some m"
    by blast
  let ?ip = "tabulate2 ((nrows img + 7) div 8 * 8) ((ncols img + 7) div 8 * 8)
      (\<lambda>y x. cell img (reflect_index (nrows img) y) (reflect_index (ncols img) x))"
  let ?md = "dilate_mask (binarize msk)"
  let ?mp = "tabulate2 ((nrows ?md + 7) div 8 * 8) ((ncols ?md + 7) div 8 * 8)
      (\<lambda>y x. cell ?md (reflect_index (nrows ?md) y) (reflect_index (ncols ?md) x))"
  from net obtain r where r: "model_forward env m ?ip ?mp = Inr r" "well_shaped r"
      "nrows r = nrows ?ip" "ncols r = ncols ?ip"
    using well_shaped_tabulate2 by blast
  have "\<exists>final. inpaint_arrays (model_forward env m) img msk = Inr final \<and> well_shaped final
      \<and> nrows final = nrows img \<and> ncols final = ncols img
      \<and> (\<forall>y<nrows img. \<forall>x<ncols img. cell final y x =
            blend_pixel (cell (crop (nrows img) (ncols img) r) y x)
              (cell (crop (nrows img) (ncols img) ?md) y x) (cell img y x))"
    by (rule inpaint_arrays_pixels [where run_model = "model_forward env m",
          OF assms(2-4) pad_to_multiple_8 pad_to_multiple_8 r])
  then obtain final where "inpaint_arrays (model_forward env m) img msk = Inr final"
      "nrows final = nrows img" "ncols final = ncols img"
    by blast
  then show ?thesis
    using l by (simp add: inpaint_def)
qed

text \<open>
  C7. Let the mask's array differ from the image's in height or width, and let Pillow's
  \<open>resize\<close> return an image of the size it is asked for. Then the mask handed to \<open>inpaint\<close>
  is the mask resized to the image's (width, height) with the \<open>NEAREST\<close> filter, it has the
  image's dimensions, and \<open>inpaint_image\<close> returns an image (no exception) when the
  checkpoint loads and the network keeps the shape of its input. If the dimensions are
  equal, the mask handed on is the mask itself.
\<close>

theorem mask_resized_to_image:
  assumes "image_to_numpy env image_in = Inr image_np" "well_shaped image_np"
    and "mask_to_numpy env mask_in = Inr mask_np"
    and resize: "(nrows mask_np, ncols mask_np) \<noteq> (nrows image_np, ncols image_np) \<Longrightarrow>
        \<exists>resized. np_array_l env (pil_resize env (fromarray_l env mask_np)
                      (ncols image_np, nrows image_np) NEAREST) = Inr resized
          \<and> nrows resized = nrows image_np \<and> ncols resized = ncols image_np"
    and "consistent s"
    and "hf_hub_download env ''fashn-ai/LaMa'' ''big-lama.pt'' = Inr path"
    and "torch_jit_load env path = Inr m0"
    and net: "\<forall>m a b. well_shaped a \<longrightarrow>
          (\<exists>r. model_forward env m a b = Inr r \<and> well_shaped r \<and> nrows r = nrows a \<and> ncols r = ncols a)"
  shows "\<exists>mask_used self s1 final s2.
           match_mask_to_image env image_np mask_np = Inr mask_used
         \<and> (if (nrows mask_np, ncols mask_np) \<noteq> (nrows image_np, ncols image_np)
            then np_array_l env (pil_resize env (fromarray_l env mask_np)
                    (ncols image_np, nrows image_np) NEAREST) = Inr mask_used
            else mask_used = mask_np)
         \<and> nrows mask_used = nrows image_np \<and> ncols mask_used = ncols image_np
         \<and> get_inpainter s = (self, s1)
         \<and> inpaint env s1 self image_np mask_used = (Inr final, s2)
         \<and> inpaint_image env s image_in mask_in = (Inr (numpy_to_image env final), s2)"
proof -
  obtain self s1 where g: "get_inpainter s = (self, s1)"
    by (cases "get_inpainter s")
  note c = get_inpainter_consistent [OF assms(5) g]
  have "\<exists>mask_used. match_mask_to_image env image_np mask_np = Inr mask_used
      \<and> (if (nrows mask_np, ncols mask_np) \<noteq> (nrows image_np, ncols image_np)
          then np_array_l env (pil_resize env (fromarray_l env mask_np)
                  (ncols image_np, nrows image_np) NEAREST) = Inr mask_used
          else mask_used = mask_np)
      \<and> nrows mask_used = nrows image_np \<and> ncols mask_used = ncols image_np"
  proof (cases "(nrows mask_np, ncols mask_np) \<noteq> (nrows image_np, ncols image_np)")
    case True
    from resize [OF True] obtain resized where
      "np_array_l env (pil_resize env (fromarray_l env mask_np)
          (ncols image_np, nrows image_np) NEAREST) = Inr resized"
      "nrows resized = nrows image_np" "ncols resized = ncols image_np"
      by blast
    with True show ?thesis
      by (simp add: match_mask_to_image_def)
  next
    case False
    then show ?thesis
      by (simp add: match_mask_to_image_def)
  qed
  then obtain mask_used where m: "match_mask_to_image env image_np mask_np = Inr mask_used"
      "if (nrows mask_np, ncols mask_np) \<noteq> (nrows image_np, ncols image_np)
       then np_array_l env (pil_resize env (fromarray_l env mask_np)
               (ncols image_np, nrows image_np) NEAREST) = Inr mask_used
       else mask_used = mask_np"
      "nrows mask_used = nrows image_np" "ncols mask_used = ncols image_np"
    by blast
  from inpaint_returns [OF c(4) assms(2) m(3,4) assms(6,7) net]
  obtain final s2 where i: "inpaint env s1 self image_np mask_used = (Inr final, s2)"
    by blast
  have "inpaint_image env s image_in mask_in = (Inr (numpy_to_image env final), s2)"
    by (simp add: inpaint_image_def g assms(1,3) m(1) i bind_exn_def)
  with m g i show ?thesis
    by blast
qed

lemma example_match_mask:
  "match_mask_to_image example_env example_image example_small_mask =
     Inr \<lparr>nrows = 2, ncols = 4, cells = [[200, 200, 0, 0], [200, 200, 0, 0]]\<rparr>"
  by code_simp

lemma example_env_fields:
  "hf_hub_download example_env ''fashn-ai/LaMa'' ''big-lama.pt'' = Inr ''/cache/big-lama.pt''"
  "torch_jit_load example_env ''/cache/big-lama.pt'' = Inr (ScriptModule 0)"
  "model_forward example_env m = example_model"
  "fromarray_rgb example_env = RasterRGB"
  "image_to_numpy example_env (RasterRGB example_image) = Inr example_image"
  "mask_to_numpy example_env (RasterL example_small_mask) = Inr example_small_mask"
  by (simp_all add: example_env_def image_to_numpy_def mask_to_numpy_def bind_exn_def)

lemma example_resize:
  "np_array_l example_env (pil_resize example_env (fromarray_l example_env a) (w, h) NEAREST) =
     Inr (tabulate2 h w (\<lambda>y x. cell a ((2 * y + 1) * nrows a div (2 * h))
                                  ((2 * x + 1) * ncols a div (2 * w))))"
  by (simp add: example_env_def)

theorem mask_resized_to_image_witness:
  "consistent initial_process
   \<and> image_to_numpy example_env (RasterRGB example_image) = Inr example_image
   \<and> mask_to_numpy example_env (RasterL example_small_mask) = Inr example_small_mask
   \<and> (nrows example_small_mask, ncols example_small_mask) \<noteq> (nrows example_image, ncols example_image)
   \<and> (\<exists>mask_used final s2.
         match_mask_to_image example_env example_image example_small_mask = Inr mask_used
       \<and> mask_used = \<lparr>nrows = 2, ncols = 4, cells = [[200, 200, 0, 0], [200, 200, 0, 0]]\<rparr>
       \<and> inpaint_image example_env initial_process (RasterRGB example_image) (RasterL example_small_mask)
           = (Inr (RasterRGB final), s2))"
proof -
  have c: "consistent initial_process"
    by (simp add: consistent_def initial_process_def)
  have differ: "(nrows example_small_mask, ncols example_small_mask) \<noteq> (nrows example_image, ncols example_image)"
    by (simp add: example_small_mask_def example_shapes(5,6))
  have resize: "\<exists>resized. np_array_l example_env (pil_resize example_env (fromarray_l example_env example_small_mask)
        (ncols example_image, nrows example_image) NEAREST) = Inr resized
      \<and> nrows resized = nrows example_image \<and> ncols resized = ncols example_image"
    by (simp add: example_resize)
  have net: "\<forall>m a b. well_shaped a \<longrightarrow>
      (\<exists>r. model_forward example_env m a b = Inr r \<and> well_shaped r \<and> nrows r = nrows a \<and> ncols r = ncols a)"
    by (simp add: example_env_fields(3) example_model_def)
  from mask_resized_to_image [where env = example_env, OF example_env_fields(5) example_shapes(1)
      example_env_fields(6) resize c example_env_fields(1,2) net]
  obtain mask_used self s1 final s2 where
    r: "match_mask_to_image example_env example_image example_small_mask = Inr mask_used"
      "inpaint_image example_env initial_process (RasterRGB example_image) (RasterL example_small_mask)
         = (Inr (numpy_to_image example_env final), s2)"
    by blast
  from r(1) have "mask_used = \<lparr>nrows = 2, ncols = 4, cells = [[200, 200, 0, 0], [200, 200, 0, 0]]\<rparr>"
    by (simp add: example_match_mask)
  with r c differ show ?thesis
    by (simp add: example_env_fields numpy_to_image_def)
qed

section \<open>Base64\<close>

lemma b64_index_char: "n < 64 \<Longrightarrow> b64_index (b64_char n) = Some n"
  by (auto simp: b64_index_def b64_char_def Let_def)

lemma b64_char_code: "n < 64 \<Longrightarrow> (of_char (b64_char n) :: nat) < 128 \<and> (of_char (b64_char n) :: nat) \<noteq> 61
    \<and> (of_char (b64_char n) :: nat) \<noteq> 10"
  by (auto simp: b64_char_def)

lemma b64_char_not_pad: "n < 64 \<Longrightarrow> b64_char n \<noteq> CHR ''=''"
  using b64_char_code [of n] by (auto simp del: of_char_of)

lemma b64_char_not_newline: "n < 64 \<Longrightarrow> b64_char n \<noteq> CHR 0x0A"
  using b64_char_code [of n] by (auto simp del: of_char_of)

lemma div_mod_pack:
  fixes k r n :: nat
  assumes "r < n"
  shows "(k * n + r) div n = k" "(k * n + r) mod n = r"
  using assms by simp_all

lemma sextets:
  fixes a b c :: u8
  shows "unat a div 4 < 64" "unat a mod 4 * 16 + unat b div 16 < 64"
    "unat b mod 16 * 4 + unat c div 64 < 64" "unat c mod 64 < 64"
    "unat a mod 4 * 16 < 64" "unat b mod 16 * 4 < 64"
proof -
  have a: "unat a < 256" and b: "unat b < 256" and c: "unat c < 256"
    using unsigned_less [of a] unsigned_less [of b] unsigned_less [of c] by simp_all
  have m4: "unat a mod 4 < 4" and m16: "unat b mod 16 < 16" by simp_all
  show "unat a div 4 < 64" using a by simp
  have "unat b div 16 < 16" using b by simp
  with m4 show "unat a mod 4 * 16 + unat b div 16 < 64" by linarith
  have "unat c div 64 < 4" using c by simp
  with m16 show "unat b mod 16 * 4 + unat c div 64 < 64" by linarith
  show "unat c mod 64 < 64" by simp
  show "unat a mod 4 * 16 < 64" using m4 by linarith
  show "unat b mod 16 * 4 < 64" using m16 by linarith
qed

lemma a2b_base64_valid:
  assumes "n < 64"
  shows "a2b_base64 q l p out (b64_char n # rest) =
     (if q = 0 then a2b_base64 1 n 0 out rest
      else if q = 1 then a2b_base64 2 (n mod 16) 0 (out @ [of_nat (l * 4 + n div 16)]) rest
      else if q = 2 then a2b_base64 3 (n mod 4) 0 (out @ [of_nat (l * 16 + n div 4)]) rest
      else a2b_base64 0 0 0 (out @ [of_nat (l * 64 + n)]) rest)"
  using assms by (simp add: b64_index_char b64_char_not_pad)

lemma a2b_base64_group:
  assumes "v1 < 64" "v2 < 64" "v3 < 64" "v4 < 64"
  shows "a2b_base64 0 l p out (b64_char v1 # b64_char v2 # b64_char v3 # b64_char v4 # rest) =
     a2b_base64 0 0 0
       (out @ [of_nat (v1 * 4 + v2 div 16), of_nat (v2 mod 16 * 16 + v3 div 4),
               of_nat (v3 mod 4 * 64 + v4)]) rest"
  using assms by (simp add: a2b_base64_valid del: a2b_base64.simps of_nat_add of_nat_mult)

lemma a2b_base64_pad1:
  assumes "v1 < 64" "v2 < 64" "v3 < 64"
  shows "a2b_base64 0 l p out (b64_char v1 # b64_char v2 # b64_char v3 # CHR ''='' # rest) =
     Inr (out @ [of_nat (v1 * 4 + v2 div 16), of_nat (v2 mod 16 * 16 + v3 div 4)])"
proof -
  have "a2b_base64 0 l p out (b64_char v1 # b64_char v2 # b64_char v3 # CHR ''='' # rest) =
      a2b_base64 3 (v3 mod 4) 0
        (out @ [of_nat (v1 * 4 + v2 div 16), of_nat (v2 mod 16 * 16 + v3 div 4)]) (CHR ''='' # rest)"
    using assms by (simp add: a2b_base64_valid del: a2b_base64.simps of_nat_add of_nat_mult)
  then show ?thesis
    by simp
qed

lemma a2b_base64_pad2:
  assumes "v1 < 64" "v2 < 64"
  shows "a2b_base64 0 l p out (b64_char v1 # b64_char v2 # CHR ''='' # CHR ''='' # rest) =
     Inr (out @ [of_nat (v1 * 4 + v2 div 16)])"
proof -
  have "a2b_base64 0 l p out (b64_char v1 # b64_char v2 # CHR ''='' # CHR ''='' # rest) =
      a2b_base64 2 (v2 mod 16) 0 (out @ [of_nat (v1 * 4 + v2 div 16)]) (CHR ''='' # CHR ''='' # rest)"
    using assms by (simp add: a2b_base64_valid del: a2b_base64.simps of_nat_add of_nat_mult)
  then show ?thesis
    by simp
qed

lemma bytes_back:
  fixes a b c :: u8
  shows "of_nat (unat a div 4 * 4 + (unat a mod 4 * 16 + unat b div 16) div 16) = a"
    "(unat a mod 4 * 16 + unat b div 16) mod 16 = unat b div 16"
    "of_nat (unat b div 16 * 16 + (unat b mod 16 * 4 + unat c div 64) div 4) = b"
    "(unat b mod 16 * 4 + unat c div 64) mod 4 = unat c div 64"
    "of_nat (unat c div 64 * 64 + unat c mod 64) = c"
    "of_nat (unat a div 4 * 4 + (unat a mod 4 * 16) div 16) = a"
    "of_nat (unat b div 16 * 16 + (unat b mod 16 * 4) div 4) = b"
proof -
  have "unat b < 256" "unat c < 256"
    using unsigned_less [of b] unsigned_less [of c] by simp_all
  then have b: "unat b div 16 < 16" and c: "unat c div 64 < 4"
    by simp_all
  have 1: "(unat a mod 4 * 16 + unat b div 16) div 16 = unat a mod 4"
    by (rule div_mod_pack(1) [OF b])
  show "(unat a mod 4 * 16 + unat b div 16) mod 16 = unat b div 16"
    by (rule div_mod_pack(2) [OF b])
  have 2: "(unat b mod 16 * 4 + unat c div 64) div 4 = unat b mod 16"
    by (rule div_mod_pack(1) [OF c])
  show "(unat b mod 16 * 4 + unat c div 64) mod 4 = unat c div 64"
    by (rule div_mod_pack(2) [OF c])
  have ua: "unat a div 4 * 4 + unat a mod 4 = unat a" and ub: "unat b div 16 * 16 + unat b mod 16 = unat b"
    and uc: "unat c div 64 * 64 + unat c mod 64 = unat c"
    by simp_all
  show "of_nat (unat a div 4 * 4 + (unat a mod 4 * 16 + unat b div 16) div 16) = a"
    by (simp only: 1 ua) simp
  show "of_nat (unat b div 16 * 16 + (unat b mod 16 * 4 + unat c div 64) div 4) = b"
    by (simp only: 2 ub) simp
  show "of_nat (unat c div 64 * 64 + unat c mod 64) = c"
    by (simp only: uc) simp
  have "unat a mod 4 * 16 div 16 = unat a mod 4" "unat b mod 16 * 4 div 4 = unat b mod 16"
    by simp_all
  then show "of_nat (unat a div 4 * 4 + (unat a mod 4 * 16) div 16) = a"
    "of_nat (unat b div 16 * 16 + (unat b mod 16 * 4) div 4) = b"
    by (simp_all only: ua ub) simp_all
qed

lemma a2b_base64_encode: "a2b_base64 0 l p out (b64encode bs) = Inr (out @ bs)"
proof (induction bs arbitrary: l p out rule: b64encode.induct)
  case (1 a b c rest)
  have "a2b_base64 0 l p out (b64encode (a # b # c # rest))
      = a2b_base64 0 0 0 (out @ [a, b, c]) (b64encode rest)"
    by (simp only: b64encode.simps append_Cons append_Nil a2b_base64_group [OF sextets(1-4)]
        bytes_back)
  then show ?case
    by (simp only: "1.IH") simp
next
  case (2 a b)
  show ?case
    by (simp only: b64encode.simps a2b_base64_pad1 [OF sextets(1,2,6)] bytes_back)
next
  case (3 a)
  show ?case
    by (simp only: b64encode.simps a2b_base64_pad2 [OF sextets(1,5)] bytes_back)
next
  case 4
  show ?case by simp
qed

lemma b64_char_ok: "n < 64 \<Longrightarrow> (of_char (b64_char n) :: nat) < 128 \<and> b64_char n \<noteq> CHR 0x0A"
  using b64_char_code [of n] b64_char_not_newline [of n] by simp

lemma b64encode_chars:
  "ch \<in> set (b64encode bs) \<Longrightarrow> (of_char ch :: nat) < 128 \<and> ch \<noteq> CHR 0x0A"
proof (induction bs rule: b64encode.induct)
  case (1 a b c rest)
  then show ?case
    using b64_char_ok [OF sextets(1), of a] b64_char_ok [OF sextets(2), of a b]
      b64_char_ok [OF sextets(3), of b c] b64_char_ok [OF sextets(4), of c]
    by (auto simp del: of_char_of)
next
  case (2 a b)
  then show ?case
    using b64_char_ok [OF sextets(1), of a] b64_char_ok [OF sextets(2), of a b]
      b64_char_ok [OF sextets(6), of b]
    by (auto simp del: of_char_of)
next
  case (3 a)
  then show ?case
    using b64_char_ok [OF sextets(1), of a] b64_char_ok [OF sextets(5), of a]
    by (auto simp del: of_char_of)
next
  case 4
  then show ?case by simp
qed

lemma b64encode_nonempty: "bs \<noteq> [] \<Longrightarrow> b64encode bs \<noteq> []"
  by (induction bs rule: b64encode.induct) simp_all

lemma b64decode_b64encode: "b64decode (b64encode bs) = Inr bs"
proof -
  have "\<not> 128 \<le> (of_char ch :: nat)" if "ch \<in> set (b64encode bs)" for ch
    using b64encode_chars [OF that] by simp
  then have "\<not> list_ex (\<lambda>ch. 128 \<le> (of_char ch :: nat)) (b64encode bs)"
    unfolding list_ex_iff by blast
  then show ?thesis
    using a2b_base64_encode [of 0 0 "[]" bs] by (simp add: b64decode_def)
qed

section \<open>Encoding and decoding data URLs\<close>

lemma takeWhile_all: "(\<And>x. x \<in> set xs \<Longrightarrow> P x) \<Longrightarrow> takeWhile P xs = xs"
  by (induction xs) simp_all

lemma match_data_url_png:
  assumes "p \<noteq> []" "CHR 0x0A \<notin> set p"
  shows "match_data_url (''data:image/png;base64,'' @ p) = Some p"
proof -
  have tw: "takeWhile (\<lambda>ch. ch \<noteq> CHR 0x0A) p = p"
    using assms(2) by (intro takeWhile_all) auto
  have "match_data_url (''data:image/png;base64,'' @ p) =
      (if takeWhile (\<lambda>ch. ch \<noteq> CHR 0x0A) p = [] then None
       else Some (takeWhile (\<lambda>ch. ch \<noteq> CHR 0x0A) p))"
    by (simp add: match_data_url_def strip_prefix_def)
  then show ?thesis
    using assms(1) by (simp only: tw if_False)
qed

lemma lower_PNG: "lower ''PNG'' = ''png''"
  by code_simp

text \<open>
  C5. Let Pillow write a PNG file for the image (a file is never empty) and read that file
  back as the image it wrote (PNG is lossless; images are compared as values). Then
  encoding the image with the default format gives a data URL, and decoding that URL gives
  the image again: the base64 text and the \<open>data:image/png;base64,\<close> prefix around the file
  are undone exactly.
\<close>

theorem decode_encode_roundtrip:
  assumes "pil_save env img ''PNG'' = Inr buffer" "buffer \<noteq> []"
    and "pil_open env buffer = Inr img"
  shows "\<exists>data_url. encode_image_to_base64 env img ''PNG'' = Inr data_url
           \<and> decode_base64_image env data_url = Inr img"
proof -
  let ?p = "b64encode buffer"
  let ?url = "''data:image/png;base64,'' @ ?p"
  have enc: "encode_image_to_base64 env img ''PNG'' = Inr ?url"
    by (simp add: encode_image_to_base64_def bind_exn_def assms(1) lower_PNG)
  have "?p \<noteq> []"
    by (rule b64encode_nonempty [OF assms(2)])
  moreover have "CHR 0x0A \<notin> set ?p"
    using b64encode_chars [of "CHR 0x0A" buffer] by blast
  ultimately have m: "match_data_url ?url = Some ?p"
    by (rule match_data_url_png)
  have st: "take 5 ?url = ''data:''"
    by simp
  have "decode_base64_image env ?url = Inr img"
    by (simp only: decode_base64_image_def st m option.case bind_exn_def)
       (simp add: b64decode_b64encode assms(3))
  with enc show ?thesis
    by blast
qed

lemma example_save: "pil_save example_env (RasterRGB example_image) ''PNG'' = Inr example_png"
  by (simp add: example_env_def)

lemma example_open: "pil_open example_env example_png = Inr (RasterRGB example_image)"
  by (simp add: example_env_def)

lemma example_data_url:
  "encode_image_to_base64 example_env (RasterRGB example_image) ''PNG''
     = Inr ''data:image/png;base64,iVBORw0KGgo=''"
  by code_simp

theorem decode_encode_roundtrip_witness:
  "pil_save example_env (RasterRGB example_image) ''PNG'' = Inr example_png \<and> example_png \<noteq> []
   \<and> pil_open example_env example_png = Inr (RasterRGB example_image)
   \<and> encode_image_to_base64 example_env (RasterRGB example_image) ''PNG''
       = Inr ''data:image/png;base64,iVBORw0KGgo=''
   \<and> decode_base64_image example_env ''data:image/png;base64,iVBORw0KGgo=''
       = Inr (RasterRGB example_image)"
proof -
  have ne: "example_png \<noteq> []"
    by (simp add: example_png_def)
  from decode_encode_roundtrip [OF example_save ne example_open]
  have "decode_base64_image example_env ''data:image/png;base64,iVBORw0KGgo=''
      = Inr (RasterRGB example_image)"
    by (simp only: example_data_url) simp
  with example_save ne example_open example_data_url show ?thesis
    by simp
qed

section \<open>The route's answer to input that does not decode\<close>

lemma a2b_base64_raises_binascii:
  "a2b_base64 q l p out s = Inl e \<Longrightarrow> isinstance_ValueError e"
  by (induction q l p out s rule: a2b_base64.induct) (auto split: if_splits option.splits)

lemma b64decode_raises_ValueError: "b64decode s = Inl e \<Longrightarrow> isinstance_ValueError e"
  by (auto simp: b64decode_def split: if_splits dest: a2b_base64_raises_binascii)

lemma route_decode_error:
  "decode_base64_image env (image_str request) = Inl e \<Longrightarrow>
     inpaint_route env s request = (http_error e, s)"
  by (simp add: inpaint_route_def)

text \<open>
  The two failures of decoding that raise \<open>ValueError\<close> or its subclass \<open>binascii.Error\<close>
  are answered with status 400 and the message \<open>Invalid image data\<close>.
\<close>

lemma bad_data_url_is_400:
  assumes "take 5 (image_str request) = ''data:''" "match_data_url (image_str request) = None"
  shows "inpaint_route env s request =
     (HTTPException 400 ''Invalid image data: Invalid data URL format'', s)"
proof -
  have "decode_base64_image env (image_str request) = Inl (ValueError ''Invalid data URL format'')"
    using assms by (simp add: decode_base64_image_def bind_exn_def)
  then show ?thesis
    by (simp add: route_decode_error http_error_def)
qed

lemma bad_base64_is_400:
  assumes "take 5 (image_str request) \<noteq> ''data:''" "b64decode (image_str request) = Inl e"
  shows "inpaint_route env s request = (HTTPException 400 (''Invalid image data: '' @ str_exn e), s)"
proof -
  have "decode_base64_image env (image_str request) = Inl e"
    using assms by (simp add: decode_base64_image_def bind_exn_def)
  then show ?thesis
    using b64decode_raises_ValueError [OF assms(2)] by (simp add: route_decode_error http_error_def)
qed

lemma b64decode_hello: "b64decode ''aGVsbG8='' = Inr [104, 101, 108, 108, 111]"
  by code_simp

text \<open>
  C2. The third failure is not: \<open>aGVsbG8=\<close> is the base64 text of the five bytes of
  \<open>hello\<close>, which are no image. \<open>Image.open\<close> raises \<open>UnidentifiedImageError\<close>, a subclass of
  \<open>OSError\<close>; the clause for \<open>ValueError\<close> does not catch it, and the route answers with
  status 500 and the message \<open>Inpainting failed\<close>, where the claim has status 400 and
  \<open>Invalid image data\<close>.
\<close>

theorem unrecognized_image_is_500:
  assumes "pil_open env [104, 101, 108, 108, 111] = Inl (UnidentifiedImageError msg)"
  shows "decode_base64_image env ''aGVsbG8='' = Inl (UnidentifiedImageError msg)
       \<and> inpaint_route env s \<lparr>image_str = ''aGVsbG8='', mask_str = m\<rparr>
           = (HTTPException 500 (''Inpainting failed: '' @ msg), s)"
proof -
  have d: "decode_base64_image env ''aGVsbG8='' = Inl (UnidentifiedImageError msg)"
    by (simp add: decode_base64_image_def bind_exn_def b64decode_hello assms)
  then have "inpaint_route env s \<lparr>image_str = ''aGVsbG8='', mask_str = m\<rparr>
      = (http_error (UnidentifiedImageError msg), s)"
    by (simp add: route_decode_error)
  with d show ?thesis
    by (simp add: http_error_def)
qed

theorem unrecognized_image_is_500_witness:
  "pil_open example_env [104, 101, 108, 108, 111]
     = Inl (UnidentifiedImageError ''cannot identify image file'')
   \<and> inpaint_route example_env initial_process \<lparr>image_str = ''aGVsbG8='', mask_str = ''aGVsbG8=''\<rparr>
       = (HTTPException 500 ''Inpainting failed: cannot identify image file'', initial_process)"
proof -
  have o: "pil_open example_env [104, 101, 108, 108, 111]
      = Inl (UnidentifiedImageError ''cannot identify image file'')"
    by (simp add: example_env_def example_png_def)
  from unrecognized_image_is_500 [OF o] o show ?thesis
    by simp
qed

end
